theory Spec2Isabelle
  imports Main "HOL-Library.Word" "HOL-Library.Code_Target_Nat"
begin

section \<open>Asset pipeline of the banner scraper (scripts/html_banner_scraper.py)\<close>

text \<open>
  Python values are modelled as follows.
  \<^item> \<open>bytes\<close> is a list of 8-bit words.
  \<^item> \<open>str\<close> is a list of Unicode code points (natural numbers); the literals of the
    source are written as Isabelle strings and converted by \<open>S\<close>.
  \<^item> The category names (\<open>'image'\<close>, \<open>'css'\<close>, ...) stay Isabelle strings: the source
    only compares them with literals.
  \<^item> An exception is a value \<open>Inl e\<close> of a sum type.
\<close>

type_synonym byte = "8 word"
type_synonym pystr = "nat list"

datatype py_error = StructError | ValueError | UnicodeEncodeError

definition S :: "string \<Rightarrow> pystr" where
  "S s = map of_char s"

definition B :: "string \<Rightarrow> byte list" where
  "B s = map of_char s"

subsection \<open>Sequence primitives: \<open>startswith\<close>, \<open>endswith\<close>, \<open>in\<close>, slices\<close>

fun startswith :: "'a list \<Rightarrow> 'a list \<Rightarrow> bool" where
  "startswith _ [] = True"
| "startswith [] (p # ps) = False"
| "startswith (x # xs) (p # ps) = (x = p \<and> startswith xs ps)"

definition endswith :: "'a list \<Rightarrow> 'a list \<Rightarrow> bool" where
  "endswith xs p = startswith (rev xs) (rev p)"

text \<open>\<open>contains xs p\<close> is Python's \<open>p in xs\<close> for strings and bytes.\<close>

fun contains :: "'a list \<Rightarrow> 'a list \<Rightarrow> bool" where
  "contains [] p = (p = [])"
| "contains (x # xs) p = (startswith (x # xs) p \<or> contains xs p)"

text \<open>\<open>slice i j xs\<close> is \<open>xs[i:j]\<close> for \<open>0 \<le> i \<le> j\<close>; it never fails.\<close>

definition slice :: "nat \<Rightarrow> nat \<Rightarrow> 'a list \<Rightarrow> 'a list" where
  "slice i j xs = take (j - i) (drop i xs)"

subsection \<open>Case mapping and whitespace\<close>

text \<open>\<open>bytes.lower()\<close> maps the ASCII capitals only.\<close>

definition byte_lower :: "byte \<Rightarrow> byte" where
  "byte_lower b = (if 0x41 \<le> b \<and> b \<le> 0x5A then b + 0x20 else b)"

text \<open>
  \<open>str.lower()\<close>, exact on U+0000..U+00FF (the ASCII capitals and the Latin-1 capitals
  U+00C0..U+00DE without the multiplication sign); code points above U+00FF are left
  alone in this model. The tokens the source searches for are ASCII and contain no
  \<open>k\<close>, and none has an \<open>i\<close> as its last letter, so the two code points above U+00FF
  whose lower case contains an ASCII letter (U+0130, U+212A) cannot create a match.
\<close>

definition cp_lower :: "nat \<Rightarrow> nat" where
  "cp_lower c =
     (if 0x41 \<le> c \<and> c \<le> 0x5A then c + 0x20
      else if 0xC0 \<le> c \<and> c \<le> 0xDE \<and> c \<noteq> 0xD7 then c + 0x20
      else c)"

definition lower :: "pystr \<Rightarrow> pystr" where
  "lower s = map cp_lower s"

text \<open>The code points for which \<open>str.isspace()\<close> holds; \<open>str.strip()\<close> removes them.\<close>

definition isspace :: "nat \<Rightarrow> bool" where
  "isspace c =
     ((9 \<le> c \<and> c \<le> 13) \<or> (28 \<le> c \<and> c \<le> 32) \<or> c = 0x85 \<or> c = 0xA0 \<or> c = 0x1680
      \<or> (0x2000 \<le> c \<and> c \<le> 0x200A) \<or> c = 0x2028 \<or> c = 0x2029 \<or> c = 0x202F
      \<or> c = 0x205F \<or> c = 0x3000)"

definition strip :: "pystr \<Rightarrow> pystr" where
  "strip s = rev (dropWhile isspace (rev (dropWhile isspace s)))"

subsection \<open>UTF-8 decoding (\<open>bytes.decode('utf-8', errors=...)\<close>)\<close>

text \<open>
  One step of the decoder at the head of the input: \<open>Inr (c, rest)\<close> is a decoded code
  point, \<open>Inl rest\<close> an ill-formed sequence with the input left after it. As CPython does,
  an ill-formed sequence ends before the first byte that cannot continue it (so
  surrogates, overlong forms and values above U+10FFFF are refused at their second byte).
\<close>

definition is_cont :: "byte \<Rightarrow> bool" where
  "is_cont b = (0x80 \<le> b \<and> b \<le> 0xBF)"

definition cont_bits :: "byte \<Rightarrow> nat" where
  "cont_bits b = unat b - 0x80"

fun utf8_step :: "byte list \<Rightarrow> (byte list) + (nat \<times> byte list)" where
  "utf8_step [] = Inl []"
| "utf8_step (b # bs) =
     (if b < 0x80 then Inr (unat b, bs)
      else if b < 0xC2 then Inl bs
      else if b < 0xE0 then
        (case bs of
           b1 # r1 \<Rightarrow>
             if is_cont b1 then Inr ((unat b - 0xC0) * 64 + cont_bits b1, r1) else Inl bs
         | [] \<Rightarrow> Inl bs)
      else if b < 0xF0 then
        (case bs of
           b1 # r1 \<Rightarrow>
             if is_cont b1 \<and> (b \<noteq> 0xE0 \<or> 0xA0 \<le> b1) \<and> (b \<noteq> 0xED \<or> b1 \<le> 0x9F) then
               (case r1 of
                  b2 # r2 \<Rightarrow>
                    if is_cont b2
                    then Inr ((unat b - 0xE0) * 4096 + cont_bits b1 * 64 + cont_bits b2, r2)
                    else Inl r1
                | [] \<Rightarrow> Inl r1)
             else Inl bs
         | [] \<Rightarrow> Inl bs)
      else if b < 0xF5 then
        (case bs of
           b1 # r1 \<Rightarrow>
             if is_cont b1 \<and> (b \<noteq> 0xF0 \<or> 0x90 \<le> b1) \<and> (b \<noteq> 0xF4 \<or> b1 \<le> 0x8F) then
               (case r1 of
                  b2 # r2 \<Rightarrow>
                    if is_cont b2 then
                      (case r2 of
                         b3 # r3 \<Rightarrow>
                           if is_cont b3
                           then Inr ((unat b - 0xF0) * 262144 + cont_bits b1 * 4096
                                     + cont_bits b2 * 64 + cont_bits b3, r3)
                           else Inl r2
                       | [] \<Rightarrow> Inl r2)
                    else Inl r1
                | [] \<Rightarrow> Inl r1)
             else Inl bs
         | [] \<Rightarrow> Inl bs)
      else Inl bs)"

lemma utf8_step_Inl_shorter:
  "utf8_step (b # bs) = Inl r \<Longrightarrow> length r \<le> length bs"
  by (force split: if_splits list.splits)

lemma utf8_step_Inr_shorter:
  "utf8_step (b # bs) = Inr (c, r) \<Longrightarrow> length r \<le> length bs"
  by (force split: if_splits list.splits)

text \<open>
  \<open>utf8_decode onerr bs\<close>: the decoded text, where \<open>onerr\<close> is what an ill-formed sequence
  contributes: nothing for \<open>errors='ignore'\<close>, U+FFFD for \<open>errors='replace'\<close>.
\<close>

function utf8_decode :: "nat list \<Rightarrow> byte list \<Rightarrow> pystr" where
  "utf8_decode onerr [] = []"
| "utf8_decode onerr (b # bs) =
     (case utf8_step (b # bs) of
        Inl r \<Rightarrow> onerr @ utf8_decode onerr r
      | Inr (c, r) \<Rightarrow> c # utf8_decode onerr r)"
  by pat_completeness auto
termination
  by (relation "measure (\<lambda>(e, bs). length bs)")
     (auto simp del: utf8_step.simps simp: less_Suc_eq_le
        dest: utf8_step_Inl_shorter utf8_step_Inr_shorter)

text \<open>\<open>utf8_valid bs\<close>: the strict decoder (\<open>bytes.decode('utf-8')\<close>) does not raise.\<close>

function utf8_valid :: "byte list \<Rightarrow> bool" where
  "utf8_valid [] = True"
| "utf8_valid (b # bs) =
     (case utf8_step (b # bs) of
        Inl r \<Rightarrow> False
      | Inr (c, r) \<Rightarrow> utf8_valid r)"
  by pat_completeness auto
termination
  by (relation "measure length")
     (auto simp del: utf8_step.simps simp: less_Suc_eq_le
        dest: utf8_step_Inl_shorter utf8_step_Inr_shorter)

subsection \<open>Content validator\<close>

text \<open>
  \<open>struct.unpack('<L', bs)[0]\<close>: the little-endian value of exactly four bytes;
  any other length raises \<open>struct.error\<close>.
\<close>

definition unpack_le32 :: "byte list \<Rightarrow> py_error + nat" where
  "unpack_le32 bs =
     (case bs of
        [b0, b1, b2, b3] \<Rightarrow>
          Inr (unat b0 + 256 * unat b1 + 65536 * unat b2 + 16777216 * unat b3)
      | _ \<Rightarrow> Inl StructError)"

text \<open>\<open>_validate_by_magic_bytes\<close>. The EOT test is the one place that can raise.\<close>

definition validate_by_magic_bytes :: "byte list \<Rightarrow> string \<Rightarrow> py_error + bool" where
  "validate_by_magic_bytes content expected_type =
     (if length content < 4 then Inr False
      else if expected_type = ''image'' then
        (if take 2 content = [0xFF, 0xD8] then Inr True
         else if take 8 content = [0x89, 0x50, 0x4E, 0x47, 0x0D, 0x0A, 0x1A, 0x0A] then Inr True
         else if take 6 content = B ''GIF87a'' \<or> take 6 content = B ''GIF89a'' then Inr True
         else if take 4 content = B ''RIFF'' \<and> slice 8 12 content = B ''WEBP'' then Inr True
         else if take 2 content = B ''BM'' then Inr True
         else if take 4 content = [0x00, 0x00, 0x01, 0x00] then Inr True
         else if contains (map byte_lower (take 200 content)) (B ''<svg'') then Inr True
         else Inr False)
      else if expected_type = ''font'' then
        (if take 4 content = B ''wOFF'' then Inr True
         else if take 4 content = B ''wOF2'' then Inr True
         else if take 4 content = [0x00, 0x01, 0x00, 0x00] \<or> take 4 content = B ''OTTO''
                 \<or> take 4 content = B ''true'' \<or> take 4 content = B ''typ1'' then Inr True
         else if length content > 34 then
           (case unpack_le32 (slice 34 38 content) of
              Inl e \<Rightarrow> Inl e
            | Inr v \<Rightarrow> if v = 0x504C then Inr True else Inr False)
         else Inr False)
      else Inr False)"

text \<open>\<open>_validate_by_content_type_header\<close>.\<close>

definition validate_by_content_type_header :: "pystr \<Rightarrow> string \<Rightarrow> bool" where
  "validate_by_content_type_header content_type_header expected_type =
     (if content_type_header = [] then False
      else
        let content_type_lower = lower content_type_header in
        if expected_type = ''image'' then
          list_ex (\<lambda>t. contains content_type_lower (S t))
            [''image/jpeg'', ''image/png'', ''image/gif'', ''image/svg'', ''image/webp'',
             ''image/bmp'', ''image/x-icon'', ''image/vnd.microsoft.icon'']
        else if expected_type = ''css'' then contains content_type_lower (S ''text/css'')
        else if expected_type = ''javascript'' then
          list_ex (\<lambda>t. contains content_type_lower (S t))
            [''application/javascript'', ''application/x-javascript'', ''text/javascript'']
        else if expected_type = ''font'' then
          list_ex (\<lambda>t. contains content_type_lower (S t))
            [''font/'', ''application/font'', ''application/x-font'',
             ''application/vnd.ms-fontobject'']
        else if expected_type = ''text'' then
          list_ex (\<lambda>t. contains content_type_lower (S t))
            [''text/'', ''application/json'', ''application/xml'']
        else False)"

text \<open>
  \<open>_validate_text_content\<close>. Its own handler turns every exception into \<open>False\<close>; the
  only one that can occur is the strict decoder's in the \<open>'text'\<close> branch.
\<close>

definition validate_text_content :: "byte list \<Rightarrow> string \<Rightarrow> bool" where
  "validate_text_content content expected_type =
     (let text_content = take 1000 (utf8_decode [] content);
          text_lower = strip (lower text_content) in
      if expected_type = ''css'' then
        list_ex (\<lambda>t. contains text_lower (S t))
          [''{'', ''}'', '':'', '';'', ''@media'', ''@import'', ''@font-face'', ''px'', ''em'', ''%'']
      else if expected_type = ''javascript'' then
        list_ex (\<lambda>t. contains text_lower (S t))
          [''function'', ''var '', ''let '', ''const '', ''=>'', ''window.'', ''document.'',
           ''console.'']
      else if expected_type = ''text'' then utf8_valid content
      else False)"

text \<open>
  \<open>_validate_content_type\<close>: the emptiness test stands before the \<open>try\<close>; inside it the
  three methods run in order, and the handler of the \<open>try\<close> answers \<open>True\<close>.
\<close>

definition validate_content_type_body :: "byte list \<Rightarrow> string \<Rightarrow> pystr \<Rightarrow> py_error + bool" where
  "validate_content_type_body content expected_type content_type_header =
     (case validate_by_magic_bytes content expected_type of
        Inl e \<Rightarrow> Inl e
      | Inr True \<Rightarrow> Inr True
      | Inr False \<Rightarrow>
          if validate_by_content_type_header content_type_header expected_type then Inr True
          else if expected_type \<in> set [''css'', ''javascript'', ''text'']
                  \<and> validate_text_content content expected_type then Inr True
          else Inr False)"

definition validate_content_type :: "byte list \<Rightarrow> string \<Rightarrow> pystr \<Rightarrow> bool" where
  "validate_content_type content expected_type content_type_header =
     (if content = [] then False
      else case validate_content_type_body content expected_type content_type_header of
             Inl e \<Rightarrow> True
           | Inr b \<Rightarrow> b)"

subsection \<open>UTF-8 encoding (\<open>str.encode('utf-8')\<close>)\<close>

text \<open>
  The strict encoder raises \<open>UnicodeEncodeError\<close> on a surrogate. A Python string holds
  no code point above U+10FFFF; the model answers with the same error there.
\<close>

definition utf8_encode_cp :: "nat \<Rightarrow> py_error + byte list" where
  "utf8_encode_cp c =
     (if c < 0x80 then Inr [of_nat c]
      else if c < 0x800 then Inr [of_nat (0xC0 + c div 64), of_nat (0x80 + c mod 64)]
      else if 0xD800 \<le> c \<and> c \<le> 0xDFFF then Inl UnicodeEncodeError
      else if c < 0x10000 then
        Inr [of_nat (0xE0 + c div 4096), of_nat (0x80 + (c div 64) mod 64),
             of_nat (0x80 + c mod 64)]
      else if c < 0x110000 then
        Inr [of_nat (0xF0 + c div 262144), of_nat (0x80 + (c div 4096) mod 64),
             of_nat (0x80 + (c div 64) mod 64), of_nat (0x80 + c mod 64)]
      else Inl UnicodeEncodeError)"

fun utf8_encode :: "pystr \<Rightarrow> py_error + byte list" where
  "utf8_encode [] = Inr []"
| "utf8_encode (c # cs) =
     (case utf8_encode_cp c of
        Inl e \<Rightarrow> Inl e
      | Inr bs \<Rightarrow> (case utf8_encode cs of Inl e \<Rightarrow> Inl e | Inr rest \<Rightarrow> Inr (bs @ rest)))"

subsection \<open>\<open>str.split\<close>, \<open>str.join\<close>, \<open>str.find\<close>\<close>

text \<open>\<open>split_on d s\<close> is \<open>s.split(d)\<close> for a one-character separator.\<close>

fun split_on :: "'a \<Rightarrow> 'a list \<Rightarrow> 'a list list" where
  "split_on d [] = [[]]"
| "split_on d (x # xs) =
     (if x = d then [] # split_on d xs
      else (case split_on d xs of
              y # ys \<Rightarrow> (x # y) # ys
            | [] \<Rightarrow> [[x]]))"

text \<open>\<open>join d parts\<close> is \<open>d.join(parts)\<close>.\<close>

fun join :: "'a list \<Rightarrow> 'a list list \<Rightarrow> 'a list" where
  "join d [] = []"
| "join d [p] = p"
| "join d (p # q # ps) = p @ d @ join d (q # ps)"

text \<open>
  \<open>split_first d s\<close>: \<open>None\<close> when \<open>d\<close> is not in \<open>s\<close>, otherwise the text before and
  after the first \<open>d\<close> (the pair \<open>s.split(d, 1)\<close>).
\<close>

fun split_first :: "'a \<Rightarrow> 'a list \<Rightarrow> ('a list \<times> 'a list) option" where
  "split_first d [] = None"
| "split_first d (x # xs) =
     (if x = d then Some ([], xs)
      else (case split_first d xs of
              None \<Rightarrow> None
            | Some (a, b) \<Rightarrow> Some (x # a, b)))"

subsection \<open>\<open>urllib.parse\<close> (as in CPython 3.11): quoting\<close>

definition is_hexdig :: "nat \<Rightarrow> bool" where
  "is_hexdig c = ((0x30 \<le> c \<and> c \<le> 0x39) \<or> (0x41 \<le> c \<and> c \<le> 0x46) \<or> (0x61 \<le> c \<and> c \<le> 0x66))"

definition hexval :: "nat \<Rightarrow> nat" where
  "hexval c = (if c \<le> 0x39 then c - 0x30 else if c \<le> 0x46 then c - 0x37 else c - 0x57)"

text \<open>
  \<open>unquote_to_bytes\<close> on an ASCII string: split at \<open>%\<close>; every piece after the first
  starts with two hex digits (they become one byte) or keeps its \<open>%\<close>.
\<close>

definition unquote_item :: "pystr \<Rightarrow> byte list" where
  "unquote_item item =
     (case item of
        h1 # h2 # rest \<Rightarrow>
          if is_hexdig h1 \<and> is_hexdig h2
          then of_nat (16 * hexval h1 + hexval h2) # map of_nat rest
          else of_nat 0x25 # map of_nat item
      | _ \<Rightarrow> of_nat 0x25 # map of_nat item)"

definition unquote_to_bytes :: "pystr \<Rightarrow> byte list" where
  "unquote_to_bytes string =
     (if string = [] then []
      else let bits = split_on 0x25 string in
           map of_nat (hd bits) @ concat (map unquote_item (tl bits)))"

definition is_ascii :: "nat \<Rightarrow> bool" where
  "is_ascii c = (c < 0x80)"

text \<open>
  \<open>unquote\<close>: a string without \<open>%\<close> is returned as it is. Otherwise every maximal run
  of ASCII characters is unquoted to bytes and decoded as UTF-8 with
  \<open>errors='replace'\<close>; the characters between the runs stay.
\<close>

function unquote_runs :: "pystr \<Rightarrow> pystr" where
  "unquote_runs s =
     (if s = [] then []
      else if is_ascii (hd s) then
        utf8_decode [0xFFFD] (unquote_to_bytes (takeWhile is_ascii s))
          @ unquote_runs (dropWhile is_ascii s)
      else takeWhile (\<lambda>c. \<not> is_ascii c) s @ unquote_runs (dropWhile (\<lambda>c. \<not> is_ascii c) s))"
  by pat_completeness auto
termination
proof (relation "measure length")
  show "wf (measure length)" by simp
next
  fix s :: pystr
  assume "s \<noteq> []" "is_ascii (hd s)"
  then have "length (dropWhile is_ascii s) < length s"
    by (cases s) (auto simp: less_Suc_eq_le length_dropWhile_le)
  then show "(dropWhile is_ascii s, s) \<in> measure length" by simp
next
  fix s :: pystr
  assume "s \<noteq> []" "\<not> is_ascii (hd s)"
  then have "length (dropWhile (\<lambda>c. \<not> is_ascii c) s) < length s"
    by (cases s) (auto simp: less_Suc_eq_le length_dropWhile_le)
  then show "(dropWhile (\<lambda>c. \<not> is_ascii c) s, s) \<in> measure length" by simp
qed

declare unquote_runs.simps [simp del]

definition unquote :: "pystr \<Rightarrow> pystr" where
  "unquote string = (if 0x25 \<notin> set string then string else unquote_runs string)"

text \<open>
  \<open>quote(string, safe)\<close>. \<open>always_safe\<close> is \<open>_ALWAYS_SAFE\<close>; a byte that is not safe
  becomes \<open>%XX\<close> with capital hex digits.
\<close>

definition always_safe :: "nat \<Rightarrow> bool" where
  "always_safe c =
     ((0x41 \<le> c \<and> c \<le> 0x5A) \<or> (0x61 \<le> c \<and> c \<le> 0x7A) \<or> (0x30 \<le> c \<and> c \<le> 0x39)
      \<or> c = 0x5F \<or> c = 0x2E \<or> c = 0x2D \<or> c = 0x7E)"

definition hexdigit :: "nat \<Rightarrow> nat" where
  "hexdigit n = (if n < 10 then 0x30 + n else 0x37 + n)"

definition quoter :: "pystr \<Rightarrow> byte \<Rightarrow> pystr" where
  "quoter safe b =
     (let n = unat b in
      if always_safe n \<or> (n < 0x80 \<and> n \<in> set safe) then [n]
      else [0x25, hexdigit (n div 16), hexdigit (n mod 16)])"

definition quote_from_bytes :: "byte list \<Rightarrow> pystr \<Rightarrow> pystr" where
  "quote_from_bytes bs safe = concat (map (quoter safe) bs)"

definition quote :: "pystr \<Rightarrow> pystr \<Rightarrow> py_error + pystr" where
  "quote string safe =
     (if string = [] then Inr string
      else case utf8_encode string of
             Inl e \<Rightarrow> Inl e
           | Inr bs \<Rightarrow> Inr (quote_from_bytes bs safe))"

subsection \<open>\<open>urllib.parse\<close>: splitting and joining URLs\<close>

text \<open>
  Two checks of \<open>urlsplit\<close> rest on other libraries (\<open>ipaddress\<close>, \<open>unicodedata\<close>). They
  only decide whether \<open>urlsplit\<close> raises \<open>ValueError\<close>, and are parameters of the model:
  \<open>bracketed_host_bad h\<close> when \<open>_check_bracketed_host(h)\<close> raises, \<open>nfkc_bad n\<close> when
  \<open>_checknetloc(n)\<close> raises for a netloc \<open>n\<close> that is not ASCII.
\<close>

record pylib =
  bracketed_host_bad :: "pystr \<Rightarrow> bool"
  nfkc_bad :: "pystr \<Rightarrow> bool"

record parse_result =
  scheme :: pystr
  netloc :: pystr
  path :: pystr
  params :: pystr
  query :: pystr
  fragment :: pystr

definition uses_relative :: "pystr list" where
  "uses_relative = map S [[], ''ftp'', ''http'', ''gopher'', ''nntp'', ''imap'',
     ''wais'', ''file'', ''https'', ''shttp'', ''mms'', ''prospero'', ''rtsp'', ''rtsps'',
     ''rtspu'', ''sftp'', ''svn'', ''svn+ssh'', ''ws'', ''wss'']"

definition uses_netloc :: "pystr list" where
  "uses_netloc = map S [[], ''ftp'', ''http'', ''gopher'', ''nntp'', ''telnet'',
     ''imap'', ''wais'', ''file'', ''mms'', ''https'', ''shttp'', ''snews'', ''prospero'',
     ''rtsp'', ''rtsps'', ''rtspu'', ''rsync'', ''svn'', ''svn+ssh'', ''sftp'', ''nfs'',
     ''git'', ''git+ssh'', ''ws'', ''wss'']"

definition uses_params :: "pystr list" where
  "uses_params = map S [[], ''ftp'', ''hdl'', ''prospero'', ''http'', ''imap'',
     ''https'', ''shttp'', ''rtsp'', ''rtsps'', ''rtspu'', ''sip'', ''sips'', ''mms'',
     ''sftp'', ''tel'']"

definition is_ascii_alpha :: "nat \<Rightarrow> bool" where
  "is_ascii_alpha c = ((0x41 \<le> c \<and> c \<le> 0x5A) \<or> (0x61 \<le> c \<and> c \<le> 0x7A))"

definition scheme_char :: "nat \<Rightarrow> bool" where
  "scheme_char c =
     (is_ascii_alpha c \<or> (0x30 \<le> c \<and> c \<le> 0x39) \<or> c = 0x2B \<or> c = 0x2D \<or> c = 0x2E)"

definition c0_control_or_space :: "nat \<Rightarrow> bool" where
  "c0_control_or_space c = (c \<le> 0x20)"

definition unsafe_url_char :: "nat \<Rightarrow> bool" where
  "unsafe_url_char c = (c = 0x09 \<or> c = 0x0D \<or> c = 0x0A)"

definition netloc_delim :: "nat \<Rightarrow> bool" where
  "netloc_delim c = (c = 0x2F \<or> c = 0x3F \<or> c = 0x23)"

text \<open>\<open>_splitnetloc(url, 2)\<close>: the text between \<open>//\<close> and the first of \<open>/ ? #\<close>, and the rest.\<close>

definition splitnetloc :: "pystr \<Rightarrow> pystr \<times> pystr" where
  "splitnetloc url =
     (takeWhile (\<lambda>c. \<not> netloc_delim c) (drop 2 url),
      dropWhile (\<lambda>c. \<not> netloc_delim c) (drop 2 url))"

text \<open>\<open>netloc.partition('[')[2].partition(']')[0]\<close>.\<close>

definition bracketed_host :: "pystr \<Rightarrow> pystr" where
  "bracketed_host nl =
     (let after = (case split_first 0x5B nl of None \<Rightarrow> [] | Some (a, b) \<Rightarrow> b)
      in case split_first 0x5D after of None \<Rightarrow> after | Some (a, b) \<Rightarrow> a)"

text \<open>\<open>url.split(d, 1)\<close> when \<open>d\<close> is in \<open>url\<close>, and \<open>(url, '')\<close> otherwise.\<close>

definition split_off :: "nat \<Rightarrow> pystr \<Rightarrow> pystr \<times> pystr" where
  "split_off d url = (case split_first d url of None \<Rightarrow> (url, []) | Some (a, b) \<Rightarrow> (a, b))"

text \<open>
  The scheme of \<open>urlsplit\<close>: the text before the first \<open>:\<close> when it is not empty, starts
  with an ASCII letter and holds scheme characters only; it is lower-cased.
\<close>

definition split_scheme :: "pystr \<Rightarrow> pystr \<Rightarrow> pystr \<times> pystr" where
  "split_scheme scheme1 url1 =
     (case split_first 0x3A url1 of
        None \<Rightarrow> (scheme1, url1)
      | Some (a, b) \<Rightarrow>
          if a \<noteq> [] \<and> is_ascii_alpha (hd a) \<and> list_all scheme_char a
          then (lower a, b) else (scheme1, url1))"

text \<open>\<open>urlsplit(url, scheme)\<close>; the result is (scheme, netloc, url, query, fragment).\<close>

definition urlsplit ::
  "pylib \<Rightarrow> pystr \<Rightarrow> pystr \<Rightarrow> py_error + (pystr \<times> pystr \<times> pystr \<times> pystr \<times> pystr)" where
  "urlsplit lib url0 scheme0 =
     (let url1 = filter (\<lambda>c. \<not> unsafe_url_char c) (dropWhile c0_control_or_space url0);
          scheme1 = filter (\<lambda>c. \<not> unsafe_url_char c)
                      (rev (dropWhile c0_control_or_space
                         (rev (dropWhile c0_control_or_space scheme0))));
          (scheme2, url2) = split_scheme scheme1 url1
      in if take 2 url2 = S ''//'' then
           (let (nl, url3) = splitnetloc url2 in
            if (0x5B \<in> set nl \<and> 0x5D \<notin> set nl) \<or> (0x5D \<in> set nl \<and> 0x5B \<notin> set nl)
            then Inl ValueError
            else if 0x5B \<in> set nl \<and> 0x5D \<in> set nl \<and> bracketed_host_bad lib (bracketed_host nl)
            then Inl ValueError
            else
              let (url4, frag) = split_off 0x23 url3;
                  (url5, qry) = split_off 0x3F url4
              in if nl \<noteq> [] \<and> \<not> list_all is_ascii nl \<and> nfkc_bad lib nl then Inl ValueError
                 else Inr (scheme2, nl, url5, qry, frag))
         else
           (let (url4, frag) = split_off 0x23 url2;
                (url5, qry) = split_off 0x3F url4
            in Inr (scheme2, [], url5, qry, frag)))"

text \<open>
  \<open>_splitparams(url)\<close>, called when \<open>;\<close> is in \<open>url\<close>: the first \<open>;\<close> at or after the last
  \<open>/\<close> splits; without a \<open>/\<close>, the first \<open>;\<close> does.
\<close>

definition splitparams :: "pystr \<Rightarrow> pystr \<times> pystr" where
  "splitparams url =
     (if 0x2F \<in> set url then
        (let tail = rev (takeWhile (\<lambda>c. c \<noteq> 0x2F) (rev url));
             front = take (length url - length tail) url
         in case split_first 0x3B tail of
              None \<Rightarrow> (url, [])
            | Some (a, b) \<Rightarrow> (front @ a, b))
      else split_off 0x3B url)"

definition urlparse :: "pylib \<Rightarrow> pystr \<Rightarrow> pystr \<Rightarrow> py_error + parse_result" where
  "urlparse lib url scheme0 =
     (case urlsplit lib url scheme0 of
        Inl e \<Rightarrow> Inl e
      | Inr (sch, nl, u, qry, frag) \<Rightarrow>
          let (u', prm) = (if sch \<in> set uses_params \<and> 0x3B \<in> set u then splitparams u else (u, []))
          in Inr \<lparr>scheme = sch, netloc = nl, path = u', params = prm, query = qry,
                  fragment = frag\<rparr>)"

definition urlunsplit :: "pystr \<Rightarrow> pystr \<Rightarrow> pystr \<Rightarrow> pystr \<Rightarrow> pystr \<Rightarrow> pystr" where
  "urlunsplit sch nl url qry frag =
     (let url1 =
            (if nl \<noteq> [] \<or> (sch \<noteq> [] \<and> sch \<in> set uses_netloc) \<or> take 2 url = S ''//''
             then S ''//'' @ nl @ (if url \<noteq> [] \<and> take 1 url \<noteq> S ''/'' then S ''/'' @ url else url)
             else url);
          url2 = (if sch \<noteq> [] then sch @ S '':'' @ url1 else url1);
          url3 = (if qry \<noteq> [] then url2 @ S ''?'' @ qry else url2)
      in if frag \<noteq> [] then url3 @ S ''#'' @ frag else url3)"

definition urlunparse :: "parse_result \<Rightarrow> pystr" where
  "urlunparse p =
     urlunsplit (scheme p) (netloc p)
       (if params p \<noteq> [] then path p @ S '';'' @ params p else path p)
       (query p) (fragment p)"

text \<open>The loop of \<open>urljoin\<close> over the segments: \<open>..\<close> pops, \<open>.\<close> is skipped.\<close>

fun resolve_segments :: "pystr list \<Rightarrow> pystr list \<Rightarrow> pystr list" where
  "resolve_segments resolved [] = resolved"
| "resolve_segments resolved (seg # segs) =
     (if seg = S ''..'' then resolve_segments (butlast resolved) segs
      else if seg = S ''.'' then resolve_segments resolved segs
      else resolve_segments (resolved @ [seg]) segs)"

text \<open>\<open>segments[1:-1] = filter(None, segments[1:-1])\<close>.\<close>

definition filter_middle :: "pystr list \<Rightarrow> pystr list" where
  "filter_middle segments =
     (if length segments < 2 then segments
      else hd segments # filter (\<lambda>x. x \<noteq> []) (butlast (tl segments)) @ [last segments])"

definition urljoin :: "pylib \<Rightarrow> pystr \<Rightarrow> pystr \<Rightarrow> py_error + pystr" where
  "urljoin lib base url =
     (if base = [] then Inr url
      else if url = [] then Inr base
      else case urlparse lib base [] of
        Inl e \<Rightarrow> Inl e
      | Inr b \<Rightarrow>
         (case urlparse lib url (scheme b) of
            Inl e \<Rightarrow> Inl e
          | Inr u \<Rightarrow>
              if scheme u \<noteq> scheme b \<or> scheme u \<notin> set uses_relative then Inr url
              else if scheme u \<in> set uses_netloc \<and> netloc u \<noteq> [] then Inr (urlunparse u)
              else
                let nl = (if scheme u \<in> set uses_netloc then netloc b else netloc u) in
                if path u = [] \<and> params u = [] then
                  Inr (urlunparse (u\<lparr>netloc := nl, path := path b, params := params b,
                         query := (if query u = [] then query b else query u)\<rparr>))
                else
                  let base_parts0 = split_on 0x2F (path b);
                      base_parts = (if last base_parts0 \<noteq> [] then butlast base_parts0
                                    else base_parts0);
                      segments = (if take 1 (path u) = S ''/'' then split_on 0x2F (path u)
                                  else filter_middle (base_parts @ split_on 0x2F (path u)));
                      resolved0 = resolve_segments [] segments;
                      resolved_path = (if last segments = S ''.'' \<or> last segments = S ''..''
                                       then resolved0 @ [[]] else resolved0);
                      joined = join (S ''/'') resolved_path
                  in Inr (urlunparse (u\<lparr>netloc := nl,
                            path := (if joined = [] then S ''/'' else joined)\<rparr>))))"

subsection \<open>The normalizer's decoding loop\<close>

text \<open>
  \<open>unquote\<close> either returns its argument or a shorter string: every escape it decodes
  turns three characters into one byte, and decoding bytes never yields more code points
  than bytes. This is why the loop below ends.
\<close>

lemma utf8_decode_length_gen: "length e \<le> 1 \<Longrightarrow> length (utf8_decode e bs) \<le> length bs"
proof (induction e bs rule: utf8_decode.induct)
  case (1 e)
  then show ?case by simp
next
  case (2 e b bs)
  show ?case
  proof (cases "utf8_step (b # bs)")
    case (Inl r)
    have "length (utf8_decode e r) \<le> length r" using 2(1)[OF Inl] 2(3) .
    moreover have "length r \<le> length bs" using utf8_step_Inl_shorter[OF Inl] .
    moreover have "utf8_decode e (b # bs) = e @ utf8_decode e r"
      using Inl by (simp del: utf8_step.simps)
    ultimately show ?thesis using 2(3) by simp
  next
    case (Inr p)
    obtain d r where p: "p = (d, r)" by (cases p)
    have "length (utf8_decode e r) \<le> length r" using 2(2)[OF Inr p[symmetric]] 2(3) .
    moreover have "length r \<le> length bs" using utf8_step_Inr_shorter[of b bs d r] Inr p by simp
    moreover have "utf8_decode e (b # bs) = d # utf8_decode e r"
      using Inr p by (simp del: utf8_step.simps)
    ultimately show ?thesis by simp
  qed
qed

lemma utf8_decode_length: "length (utf8_decode [c] bs) \<le> length bs"
  by (rule utf8_decode_length_gen) simp

lemma byte_of_ascii: "c < 128 \<Longrightarrow> (of_nat c :: byte) < 0x80 \<and> unat (of_nat c :: byte) = c"
  by (simp add: word_less_nat_alt unat_of_nat)

lemma utf8_decode_ascii:
  "list_all is_ascii cs \<Longrightarrow> utf8_decode e (map of_nat cs) = cs"
  by (induction cs) (simp_all add: is_ascii_def byte_of_ascii)

lemma join_split_on: "split_on d s \<noteq> [] \<and> hd (split_on d s) @ concat (map (\<lambda>i. d # i) (tl (split_on d s))) = s"
  by (induction s) (auto split: list.splits)

lemma unquote_item_cases:
  "unquote_item i = map of_nat (0x25 # i) \<or> length (unquote_item i) + 2 \<le> length (0x25 # i)"
  by (auto simp: unquote_item_def split: list.splits)

lemma unquote_items_length:
  "length (concat (map unquote_item items)) \<le> length (concat (map (\<lambda>i. 0x25 # i) items))
   \<and> (concat (map unquote_item items) \<noteq> map of_nat (concat (map (\<lambda>i. 0x25 # i) items))
        \<longrightarrow> length (concat (map unquote_item items)) + 2 \<le> length (concat (map (\<lambda>i. 0x25 # i) items)))"
proof (induction items)
  case Nil
  then show ?case by simp
next
  case (Cons i items)
  from unquote_item_cases[of i] show ?case
  proof
    assume "unquote_item i = map of_nat (0x25 # i)"
    with Cons show ?thesis by auto
  next
    assume "length (unquote_item i) + 2 \<le> length (0x25 # i)"
    with Cons show ?thesis by auto
  qed
qed

lemma unquote_to_bytes_length:
  "length (unquote_to_bytes r) \<le> length r
   \<and> (unquote_to_bytes r \<noteq> map of_nat r \<longrightarrow> length (unquote_to_bytes r) + 2 \<le> length r)"
proof (cases "r = []")
  case True
  then show ?thesis by (simp add: unquote_to_bytes_def)
next
  case False
  define h where "h = hd (split_on 0x25 r)"
  define g where "g = concat (map (\<lambda>i. 0x25 # i) (tl (split_on 0x25 r)))"
  define f where "f = concat (map unquote_item (tl (split_on 0x25 r)))"
  have r: "r = h @ g"
    using join_split_on[of "0x25" r] by (simp add: h_def g_def)
  have u: "unquote_to_bytes r = map of_nat h @ f"
    using False by (simp add: unquote_to_bytes_def Let_def h_def f_def)
  have fl: "length f \<le> length g \<and> (f \<noteq> map of_nat g \<longrightarrow> length f + 2 \<le> length g)"
    unfolding f_def g_def by (rule unquote_items_length)
  then have "length (map of_nat h @ f) \<le> length (h @ g)
      \<and> (map of_nat h @ f \<noteq> map of_nat (h @ g) \<longrightarrow> length (map of_nat h @ f) + 2 \<le> length (h @ g))"
    by auto
  then show ?thesis unfolding u using r by simp
qed

lemma run_length_aux:
  fixes r t x y :: "'a list"
  assumes "length y \<le> length t \<and> (y \<noteq> t \<longrightarrow> length y < length t)"
    and "length x \<le> length r \<and> (x \<noteq> r \<longrightarrow> length x < length r)"
  shows "length (x @ y) \<le> length (r @ t) \<and> (x @ y \<noteq> r @ t \<longrightarrow> length (x @ y) < length (r @ t))"
  using assms by (cases "x = r"; cases "y = t") auto

lemma unquote_runs_length:
  "length (unquote_runs s) \<le> length s \<and> (unquote_runs s \<noteq> s \<longrightarrow> length (unquote_runs s) < length s)"
proof (induction s rule: unquote_runs.induct)
  case (1 s)
  show ?case
  proof (cases "s = []")
    case True
    then show ?thesis by (simp add: unquote_runs.simps[of "[]"])
  next
    case ne: False
    show ?thesis
    proof (cases "is_ascii (hd s)")
      case True
      define r where "r = takeWhile is_ascii s"
      define t where "t = dropWhile is_ascii s"
      define x where "x = utf8_decode [0xFFFD] (unquote_to_bytes r)"
      have s: "s = r @ t" by (simp add: r_def t_def)
      have ih: "length (unquote_runs t) \<le> length t \<and> (unquote_runs t \<noteq> t \<longrightarrow> length (unquote_runs t) < length t)"
        unfolding t_def using 1(1)[OF ne True] .
      have ur: "unquote_runs s = x @ unquote_runs t"
        unfolding x_def r_def t_def using ne True by (subst unquote_runs.simps) simp
      have allr: "list_all is_ascii r"
        unfolding r_def by (simp add: list_all_iff) (meson set_takeWhileD)
      have xr: "length x \<le> length r \<and> (x \<noteq> r \<longrightarrow> length x < length r)"
      proof (cases "unquote_to_bytes r = map of_nat r")
        case True
        then have "x = r" unfolding x_def using utf8_decode_ascii[OF allr] by simp
        then show ?thesis by simp
      next
        case False
        with unquote_to_bytes_length[of r] have "length (unquote_to_bytes r) + 2 \<le> length r" by simp
        with utf8_decode_length[of "0xFFFD" "unquote_to_bytes r"]
        have "length x < length r" unfolding x_def by simp
        then show ?thesis by simp
      qed
      show ?thesis unfolding ur using run_length_aux[OF ih xr] s by simp
    next
      case False
      define r where "r = takeWhile (\<lambda>c. \<not> is_ascii c) s"
      define t where "t = dropWhile (\<lambda>c. \<not> is_ascii c) s"
      have s: "s = r @ t" by (simp add: r_def t_def)
      have ih: "length (unquote_runs t) \<le> length t \<and> (unquote_runs t \<noteq> t \<longrightarrow> length (unquote_runs t) < length t)"
        unfolding t_def using 1(2)[OF ne False] .
      have ur: "unquote_runs s = r @ unquote_runs t"
        unfolding r_def t_def using ne False by (subst unquote_runs.simps) simp
      have xr: "length r \<le> length r \<and> (r \<noteq> r \<longrightarrow> length r < length r)" by simp
      show ?thesis unfolding ur using run_length_aux[OF ih xr] s by simp
    qed
  qed
qed

lemma unquote_shorter: "unquote s \<noteq> s \<Longrightarrow> length (unquote s) < length s"
  using unquote_runs_length[of s] by (auto simp: unquote_def split: if_splits)

text \<open>
  The loop of \<open>_normalize_url\<close>:
  \<^verbatim>\<open>while decoded_part != previous_decoded:
      previous_decoded = decoded_part
      decoded_part = unquote(decoded_part)\<close>
  started with \<open>previous_decoded = None\<close>.
\<close>

function decode_loop :: "pystr \<Rightarrow> pystr option \<Rightarrow> pystr" where
  "decode_loop decoded previous =
     (if Some decoded \<noteq> previous then decode_loop (unquote decoded) (Some decoded)
      else decoded)"
  by pat_completeness auto
termination
proof (relation "measure (\<lambda>(d, prev). if Some d = prev then 0
                   else 2 * length d + (if unquote d = d then 1 else 2))")
  show "wf (measure (\<lambda>(d, prev). if Some d = prev then 0
                   else 2 * length d + (if unquote d = d then 1 else 2)))"
    by simp
next
  fix decoded :: pystr and previous :: "pystr option"
  assume ne: "Some decoded \<noteq> previous"
  show "((unquote decoded, Some decoded), (decoded, previous))
        \<in> measure (\<lambda>(d, prev). if Some d = prev then 0
                   else 2 * length d + (if unquote d = d then 1 else 2))"
  proof (cases "unquote decoded = decoded")
    case True
    with ne show ?thesis by simp
  next
    case False
    from unquote_shorter[OF False] False ne show ?thesis by auto
  qed
qed

declare decode_loop.simps [simp del]

subsection \<open>\<open>_normalize_url\<close>\<close>

definition google_fonts :: "pystr \<Rightarrow> bool" where
  "google_fonts nl = contains (lower nl) (S ''fonts.googleapis.com'')"

text \<open>One round of the loop over the path parts; \<open>quote\<close> may raise.\<close>

definition encode_part :: "pystr \<Rightarrow> py_error + pystr" where
  "encode_part part =
     (if part \<noteq> [] then quote (decode_loop part None) (S ''-._~'') else Inr part)"

fun encode_parts :: "pystr list \<Rightarrow> py_error + pystr list" where
  "encode_parts [] = Inr []"
| "encode_parts (part # parts) =
     (case encode_part part of
        Inl e \<Rightarrow> Inl e
      | Inr encoded_part \<Rightarrow>
          (case encode_parts parts of
             Inl e \<Rightarrow> Inl e
           | Inr encoded_parts \<Rightarrow> Inr (encoded_part # encoded_parts)))"

definition encode_query :: "pystr \<Rightarrow> pystr \<Rightarrow> py_error + pystr" where
  "encode_query nl qry =
     (if qry \<noteq> [] then
        (if google_fonts nl then Inr (decode_loop qry None)
         else quote (unquote qry) (S ''=&''))
      else Inr [])"

text \<open>The body of the \<open>try\<close> from \<open>urlparse(full_url)\<close> on.\<close>

definition normalize_full :: "pylib \<Rightarrow> pystr \<Rightarrow> py_error + pystr" where
  "normalize_full lib full_url =
     (case urlparse lib full_url [] of
        Inl e \<Rightarrow> Inl e
      | Inr parsed \<Rightarrow>
          (case encode_parts (split_on 0x2F (path parsed)) of
             Inl e \<Rightarrow> Inl e
           | Inr encoded_parts \<Rightarrow>
               (case encode_query (netloc parsed) (query parsed) of
                  Inl e \<Rightarrow> Inl e
                | Inr encoded_query \<Rightarrow>
                    Inr (urlunparse (parsed\<lparr>path := join (S ''/'') encoded_parts,
                           query := encoded_query\<rparr>)))))"

definition is_absolute_http :: "pystr \<Rightarrow> bool" where
  "is_absolute_http url = (startswith url (S ''http://'') \<or> startswith url (S ''https://''))"

definition not_fetchable :: "pystr \<Rightarrow> bool" where
  "not_fetchable url =
     (url = [] \<or> startswith url (S ''data:'') \<or> startswith url (S ''javascript:'')
      \<or> startswith url (S ''#''))"

text \<open>The whole body of the \<open>try\<close>; \<open>base_url\<close> is \<open>Optional[str]\<close>, tested for truth.\<close>

definition normalize_try :: "pylib \<Rightarrow> pystr \<Rightarrow> pystr option \<Rightarrow> py_error + pystr" where
  "normalize_try lib url base_url =
     (if is_absolute_http url then normalize_full lib url
      else (case base_url of
              Some b \<Rightarrow>
                if b \<noteq> [] then
                  (case urljoin lib b url of
                     Inl e \<Rightarrow> Inl e
                   | Inr full_url \<Rightarrow> normalize_full lib full_url)
                else Inr url
            | None \<Rightarrow> Inr url))"

definition normalize_url :: "pylib \<Rightarrow> pystr \<Rightarrow> pystr option \<Rightarrow> pystr" where
  "normalize_url lib url base_url =
     (if not_fetchable url then url
      else case normalize_try lib url base_url of
             Inl e \<Rightarrow> url
           | Inr normalized_url \<Rightarrow> normalized_url)"

subsection \<open>\<open>_get_expected_content_type\<close>\<close>

definition get_expected_content_type :: "pylib \<Rightarrow> pystr \<Rightarrow> py_error + string" where
  "get_expected_content_type lib url =
     (case urlparse lib url [] of
        Inl e \<Rightarrow> Inl e
      | Inr parsed \<Rightarrow>
          let p = lower (path parsed) in
          if google_fonts (netloc parsed)
             \<and> (contains p (S ''css'') \<or> contains (lower (query parsed)) (S ''css'')
                 \<or> startswith p (S ''/css''))
          then Inr ''css''
          else if list_ex (\<lambda>ext. endswith p (S ext))
                    [''.jpg'', ''.jpeg'', ''.png'', ''.gif'', ''.svg'', ''.webp'', ''.bmp'', ''.ico'']
          then Inr ''image''
          else if endswith p (S ''.css'') then Inr ''css''
          else if list_ex (\<lambda>ext. endswith p (S ext)) [''.js'', ''.mjs''] then Inr ''javascript''
          else if list_ex (\<lambda>ext. endswith p (S ext))
                    [''.woff'', ''.woff2'', ''.ttf'', ''.otf'', ''.eot'']
          then Inr ''font''
          else if list_ex (\<lambda>ext. endswith p (S ext)) [''.xml'', ''.json'', ''.txt'']
          then Inr ''text''
          else Inr ''other'')"

section \<open>The asset cache and the fetch functions\<close>

subsection \<open>Dictionaries with insertion order\<close>

text \<open>
  A Python \<open>dict\<close> whose order or size matters is a list of pairs with distinct keys:
  \<open>dict_set\<close> is \<open>d[k] = v\<close> (a present key keeps its place), \<open>map_of\<close> the lookup.
\<close>

fun dict_set :: "('k \<times> 'v) list \<Rightarrow> 'k \<Rightarrow> 'v \<Rightarrow> ('k \<times> 'v) list" where
  "dict_set [] k v = [(k, v)]"
| "dict_set (p # ps) k v = (if fst p = k then (k, v) # ps else p # dict_set ps k v)"

definition dict_has :: "('k \<times> 'v) list \<Rightarrow> 'k \<Rightarrow> bool" where
  "dict_has d k = (k \<in> set (map fst d))"

subsection \<open>The scraper and what is outside it\<close>

text \<open>
  What a request meets: a response (status, body, the body as text, the Content-Type
  header, empty when absent), or one of the exceptions the source distinguishes.
\<close>

datatype reply =
    Response nat "byte list" pystr pystr
  | ClientError
  | TimeoutError
  | OtherException

datatype http_method = GET | HEAD

text \<open>
  The environment: the libraries' parameters, \<open>hashlib.md5(...).hexdigest()\<close>,
  \<open>mimetypes.guess_extension\<close>, the network (the reply to the n-th request of the run),
  whether opening an asset file for writing raises, whether writing the manifest raises,
  and the two switches of the scraper. A file whose opening raises is not created.
\<close>

record env =
  libs :: pylib
  md5_hexdigest :: "byte list \<Rightarrow> pystr"
  guess_extension :: "pystr \<Rightarrow> pystr option"
  http :: "nat \<Rightarrow> http_method \<Rightarrow> pystr \<Rightarrow> reply"
  write_fails :: "pystr \<Rightarrow> bool"
  manifest_write_fails :: bool
  global_assets :: bool
  parallel_downloads :: bool

text \<open>
  The mutable state: \<open>self.asset_cache\<close>, \<open>self._download_failures\<close>, the active assets
  directory (file name and content), the requests sent so far, the persisted global
  cache file, the manifest \<open>assets.json\<close>, and the waits of the retry loop.
\<close>

record state =
  asset_cache :: "pystr \<rightharpoonup> pystr"
  download_failures :: nat
  files :: "(pystr \<times> byte list) list"
  requests :: "(http_method \<times> pystr) list"
  cache_file :: "(pystr \<rightharpoonup> pystr) option"
  manifest :: "(pystr \<times> pystr) list option"
  sleeps :: "nat list"

definition record_download_failure :: "state \<Rightarrow> state" where
  "record_download_failure s = s\<lparr>download_failures := download_failures s + 1\<rparr>"

definition reset_download_failure_tracking :: "state \<Rightarrow> state" where
  "reset_download_failure_tracking s = s\<lparr>download_failures := 0\<rparr>"

text \<open>\<open>_cache_downloaded_asset\<close>: a plain assignment under the stripped URL.\<close>

definition cache_downloaded_asset :: "state \<Rightarrow> pystr \<Rightarrow> pystr \<Rightarrow> state" where
  "cache_downloaded_asset s original_url local_path =
     (let original_url' = strip original_url in
      if original_url' \<noteq> [] then s\<lparr>asset_cache := (asset_cache s)(original_url' \<mapsto> local_path)\<rparr>
      else s)"

definition save_global_asset_cache :: "env \<Rightarrow> state \<Rightarrow> state" where
  "save_global_asset_cache e s =
     (if global_assets e then s\<lparr>cache_file := Some (asset_cache s)\<rparr> else s)"

definition get_asset_path_prefix :: "env \<Rightarrow> pystr" where
  "get_asset_path_prefix e = (if global_assets e then S ''../global_assets/'' else S ''assets/'')"

text \<open>
  A request leaves the process only for an \<open>http\<close> or \<open>https\<close> URL; both HTTP libraries
  raise on any other before sending.
\<close>

definition is_http_url :: "pystr \<Rightarrow> bool" where
  "is_http_url url =
     (startswith (lower url) (S ''http://'') \<or> startswith (lower url) (S ''https://''))"

definition http_request :: "env \<Rightarrow> state \<Rightarrow> http_method \<Rightarrow> pystr \<Rightarrow> reply \<times> state" where
  "http_request e s m url =
     (if is_http_url url
      then (http e (length (requests s)) m url, s\<lparr>requests := requests s @ [(m, url)]\<rparr>)
      else (OtherException, s))"

subsection \<open>File names\<close>

text \<open>\<open>os.path.splitext\<close>.\<close>

definition splitext :: "pystr \<Rightarrow> pystr \<times> pystr" where
  "splitext p =
     (let tail = rev (takeWhile (\<lambda>c. c \<noteq> 0x2F) (rev p));
          front = take (length p - length tail) p;
          ext_len = Suc (length (takeWhile (\<lambda>c. c \<noteq> 0x2E) (rev tail)));
          stem = take (length tail - ext_len) tail
      in if 0x2E \<in> set tail \<and> list_ex (\<lambda>c. c \<noteq> 0x2E) stem
         then (front @ stem, drop (length stem) tail)
         else (p, []))"

text \<open>\<open>_generate_unique_filename\<close>; \<open>urlparse\<close> and \<open>encode\<close> may raise.\<close>

definition generate_unique_filename :: "env \<Rightarrow> pystr \<Rightarrow> py_error + pystr" where
  "generate_unique_filename e url =
     (case urlparse (libs e) url [] of
        Inl err \<Rightarrow> Inl err
      | Inr parsed \<Rightarrow>
          (case utf8_encode (netloc parsed @ path parsed @ query parsed) of
             Inl err \<Rightarrow> Inl err
           | Inr url_components \<Rightarrow>
               let url_hash = take 12 (md5_hexdigest e url_components);
                   filename_part = last (split_on 0x2F (path parsed));
                   original_ext =
                     (if path parsed \<noteq> [] \<and> 0x2E \<in> set filename_part
                      then snd (splitext filename_part) else [])
               in Inr (url_hash @ original_ext)))"

text \<open>\<open>str(counter)\<close>, and the name \<open>f"{base_name}_{counter}{ext}"\<close>.\<close>

function str_nat :: "nat \<Rightarrow> pystr" where
  "str_nat n = (if n < 10 then [0x30 + n] else str_nat (n div 10) @ [0x30 + n mod 10])"
  by pat_completeness auto
termination
  by (relation "measure id") auto

declare str_nat.simps [simp del]

lemma str_nat_inj: "str_nat m = str_nat n \<Longrightarrow> m = n"
proof (induction m arbitrary: n rule: str_nat.induct)
  case (1 m)
  show ?case
  proof (cases "m < 10")
    case True
    then have m: "str_nat m = [0x30 + m]" by (simp add: str_nat.simps[of m])
    show ?thesis
    proof (cases "n < 10")
      case True
      then have "str_nat n = [0x30 + n]" by (simp add: str_nat.simps[of n])
      with m 1(2) show ?thesis by simp
    next
      case False
      then have n: "str_nat n = str_nat (n div 10) @ [0x30 + n mod 10]"
        by (simp add: str_nat.simps[of n])
      have "str_nat (n div 10) \<noteq> []" by (simp add: str_nat.simps[of "n div 10"])
      with m n 1(2) show ?thesis by (cases "str_nat (n div 10)") auto
    qed
  next
    case False
    then have m: "str_nat m = str_nat (m div 10) @ [0x30 + m mod 10]"
      by (simp add: str_nat.simps[of m])
    show ?thesis
    proof (cases "n < 10")
      case True
      then have n: "str_nat n = [0x30 + n]" by (simp add: str_nat.simps[of n])
      have "str_nat (m div 10) \<noteq> []" by (simp add: str_nat.simps[of "m div 10"])
      with m n 1(2) show ?thesis by (cases "str_nat (m div 10)") auto
    next
      case nf: False
      then have n: "str_nat n = str_nat (n div 10) @ [0x30 + n mod 10]"
        by (simp add: str_nat.simps[of n])
      from m n 1(2) have "str_nat (m div 10) = str_nat (n div 10)" and "m mod 10 = n mod 10"
        by auto
      with 1(1)[OF False, of "n div 10"] have "m div 10 = n div 10" by simp
      with \<open>m mod 10 = n mod 10\<close> show ?thesis by (metis div_mult_mod_eq)
    qed
  qed
qed

definition numbered :: "pystr \<Rightarrow> pystr \<Rightarrow> nat \<Rightarrow> pystr" where
  "numbered base_name ext counter = base_name @ S ''_'' @ str_nat counter @ ext"

lemma numbered_inj: "numbered b e m = numbered b e n \<Longrightarrow> m = n"
  by (auto simp: numbered_def dest: str_nat_inj)

lemma finite_taken: "finite {k. numbered b e k \<in> set existing}"
proof -
  have "inj (numbered b e)" by (rule injI) (rule numbered_inj)
  then have "finite (numbered b e -` set existing)" by (intro finite_vimageI) simp_all
  then show ?thesis by (simp add: vimage_def)
qed

text \<open>
  The collision loop: \<open>while local_path.exists()\<close> tries the numbered names in turn.
  It ends because the directory is finite and the numbered names are all different.
\<close>

function free_name :: "pystr list \<Rightarrow> pystr \<Rightarrow> pystr \<Rightarrow> pystr \<Rightarrow> nat \<Rightarrow> pystr" where
  "free_name existing base_name ext filename counter =
     (if filename \<in> set existing
      then free_name existing base_name ext (numbered base_name ext counter) (counter + 1)
      else filename)"
  by pat_completeness auto
termination
proof (relation "measure (\<lambda>(existing, b, e, filename, counter).
          (if filename \<in> set existing then 1 else 0)
          + 2 * card {k. counter \<le> k \<and> numbered b e k \<in> set existing})")
  show "wf (measure (\<lambda>(existing, b, e, filename, counter).
          (if filename \<in> set existing then 1 else 0)
          + 2 * card {k. counter \<le> k \<and> numbered b e k \<in> set existing}))"
    by simp
next
  fix existing :: "pystr list" and b e filename :: pystr and counter :: nat
  assume f: "filename \<in> set existing"
  let ?K = "\<lambda>c. {k. c \<le> k \<and> numbered b e k \<in> set existing}"
  have fin: "finite (?K counter)"
    using finite_taken[of b e existing] by (rule rev_finite_subset) auto
  show "((existing, b, e, numbered b e counter, counter + 1), (existing, b, e, filename, counter))
        \<in> measure (\<lambda>(existing, b, e, filename, counter).
          (if filename \<in> set existing then 1 else 0)
          + 2 * card {k. counter \<le> k \<and> numbered b e k \<in> set existing})"
  proof (cases "numbered b e counter \<in> set existing")
    case True
    have "?K (counter + 1) = ?K counter - {counter}" by auto
    moreover have "counter \<in> ?K counter" using True by simp
    ultimately have "card (?K (counter + 1)) < card (?K counter)"
      using fin by (metis card_Diff1_less)
    with f True show ?thesis by simp
  next
    case False
    have "?K (counter + 1) \<subseteq> ?K counter" by auto
    then have "card (?K (counter + 1)) \<le> card (?K counter)" using fin by (rule card_mono[rotated])
    with f False show ?thesis by simp
  qed
qed

declare free_name.simps [simp del]

definition unique_local_name :: "state \<Rightarrow> pystr \<Rightarrow> pystr" where
  "unique_local_name s filename =
     (let (base_name, ext) = splitext filename
      in free_name (map fst (files s)) base_name ext filename 1)"

definition write_file :: "state \<Rightarrow> pystr \<Rightarrow> byte list \<Rightarrow> state" where
  "write_file s name content = s\<lparr>files := dict_set (files s) name content\<rparr>"

subsection \<open>\<open>_download_asset_async\<close> and \<open>_download_asset\<close>\<close>

text \<open>
  Every \<open>except\<close> branch of the two functions records one failure and returns \<open>None\<close>.
\<close>

definition failed :: "state \<Rightarrow> pystr option \<times> state" where
  "failed s = (None, record_download_failure s)"

text \<open>The part both functions share once the response is there and its status passed.\<close>

definition store_asset ::
  "env \<Rightarrow> state \<Rightarrow> pystr \<Rightarrow> pystr \<Rightarrow> byte list \<Rightarrow> pystr \<Rightarrow> bool \<Rightarrow> pystr option \<times> state" where
  "store_asset e s full_url filename content content_type_header save_each =
     (case get_expected_content_type (libs e) full_url of
        Inl err \<Rightarrow> failed s
      | Inr expected_type \<Rightarrow>
          if \<not> validate_content_type content expected_type content_type_header then failed s
          else if write_fails e filename then failed s
          else
            let s1 = write_file s filename content;
                relative_path = get_asset_path_prefix e @ filename;
                s2 = cache_downloaded_asset s1 full_url relative_path;
                s3 = (if save_each then save_global_asset_cache e s2 else s2)
            in (Some relative_path, s3))"

text \<open>
  \<open>_download_asset_async\<close>. \<open>raise_for_status\<close> of aiohttp raises from status 400 on.
\<close>

definition download_asset_async :: "env \<Rightarrow> state \<Rightarrow> pystr \<Rightarrow> pystr \<Rightarrow> pystr option \<times> state" where
  "download_asset_async e s asset_url base_url =
     (let full_url = normalize_url (libs e) asset_url (Some base_url) in
      case asset_cache s full_url of
        Some cached_path \<Rightarrow> (Some cached_path, s)
      | None \<Rightarrow>
          (case generate_unique_filename e full_url of
             Inl err \<Rightarrow> failed s
           | Inr filename0 \<Rightarrow>
               let filename = unique_local_name s filename0;
                   (r, s1) = http_request e s GET full_url
               in case r of
                    Response status content txt content_type_header \<Rightarrow>
                      if status = 403 then failed s1
                      else if status = 404 then failed s1
                      else if status = 429 then failed s1
                      else if 400 \<le> status then failed s1
                      else store_asset e s1 full_url filename content content_type_header False
                  | ClientError \<Rightarrow> failed s1
                  | TimeoutError \<Rightarrow> failed s1
                  | OtherException \<Rightarrow> failed s1))"

text \<open>
  \<open>_download_asset\<close>. A name without a dot first asks for the content type with a
  \<open>HEAD\<close> request, whose failure is ignored. \<open>raise_for_status\<close> of requests raises for
  the statuses 400 to 599.
\<close>

definition head_extension :: "env \<Rightarrow> state \<Rightarrow> pystr \<Rightarrow> pystr \<Rightarrow> pystr \<times> state" where
  "head_extension e s full_url filename =
     (if 0x2E \<notin> set filename then
        (let (r, s1) = http_request e s HEAD full_url in
         case r of
           Response status content txt content_type \<Rightarrow>
             (case guess_extension e (hd (split_on 0x3B content_type)) of
                Some ext \<Rightarrow> (if ext \<noteq> [] then filename @ ext else filename, s1)
              | None \<Rightarrow> (filename, s1))
         | ClientError \<Rightarrow> (filename, s1)
         | TimeoutError \<Rightarrow> (filename, s1)
         | OtherException \<Rightarrow> (filename, s1))
      else (filename, s))"

definition download_asset :: "env \<Rightarrow> state \<Rightarrow> pystr \<Rightarrow> pystr \<Rightarrow> pystr option \<times> state" where
  "download_asset e s asset_url base_url =
     (let full_url = normalize_url (libs e) asset_url (Some base_url) in
      case asset_cache s full_url of
        Some cached_path \<Rightarrow> (Some cached_path, s)
      | None \<Rightarrow>
          (case generate_unique_filename e full_url of
             Inl err \<Rightarrow> failed s
           | Inr filename0 \<Rightarrow>
               let (filename1, s0) = head_extension e s full_url filename0;
                   filename = unique_local_name s0 filename1;
                   (r, s1) = http_request e s0 GET full_url
               in case r of
                    Response status content txt content_type_header \<Rightarrow>
                      if status = 403 then failed s1
                      else if status = 404 then failed s1
                      else if status = 429 then failed s1
                      else if 400 \<le> status \<and> status < 600 then failed s1
                      else store_asset e s1 full_url filename content content_type_header True
                  | ClientError \<Rightarrow> failed s1
                  | TimeoutError \<Rightarrow> failed s1
                  | OtherException \<Rightarrow> failed s1))"

section \<open>Collecting, downloading and rewriting the assets of a document\<close>

subsection \<open>The parsed document\<close>

text \<open>
  The \<open>BeautifulSoup\<close> object is the list of its tags in document order. An attribute
  value is a string, or a list of strings for a multi-valued attribute such as \<open>rel\<close>.
  A tag is referred to by its position in the list.
\<close>

datatype attr_value = Str pystr | Multi "pystr list"

record element =
  tag :: string
  attrs :: "(string \<times> attr_value) list"

type_synonym soup = "element list"

definition find_all :: "soup \<Rightarrow> string \<Rightarrow> nat list" where
  "find_all sp tag_name = filter (\<lambda>i. tag (sp ! i) = tag_name) [0..<length sp]"

text \<open>
  \<open>soup.find_all('link', rel='stylesheet')\<close>: a list value matches when one of its items
  or the items joined by spaces is \<open>stylesheet\<close>.
\<close>

definition rel_matches_stylesheet :: "element \<Rightarrow> bool" where
  "rel_matches_stylesheet el =
     (case map_of (attrs el) ''rel'' of
        None \<Rightarrow> False
      | Some (Str v) \<Rightarrow> v = S ''stylesheet''
      | Some (Multi vs) \<Rightarrow> S ''stylesheet'' \<in> set vs \<or> join (S '' '') vs = S ''stylesheet'')"

definition find_stylesheet_links :: "soup \<Rightarrow> nat list" where
  "find_stylesheet_links sp =
     filter (\<lambda>i. tag (sp ! i) = ''link'' \<and> rel_matches_stylesheet (sp ! i)) [0..<length sp]"

text \<open>\<open>element[attr] = value\<close>.\<close>

definition set_attr :: "soup \<Rightarrow> nat \<Rightarrow> string \<Rightarrow> pystr \<Rightarrow> soup" where
  "set_attr sp i attr v = sp[i := (sp ! i)\<lparr>attrs := dict_set (attrs (sp ! i)) attr (Str v)\<rparr>]"

text \<open>
  The test of the collecting loops:
  \<open>isinstance(original_url, str) and original_url and not original_url.startswith(...)\<close>.
\<close>

definition downloadable_attr :: "element \<Rightarrow> string \<Rightarrow> pystr option" where
  "downloadable_attr el attr =
     (case map_of (attrs el) attr of
        Some (Str original_url) \<Rightarrow>
          if \<not> not_fetchable original_url then Some original_url else None
      | _ \<Rightarrow> None)"

subsection \<open>\<open>url(...)\<close> references in a stylesheet\<close>

text \<open>
  The pattern \<open>url\s*\(\s*["\']?([^"\')\s]+)["\']?\s*\)\<close>. No part of it can match in two
  ways (white space, quotes and the closing parenthesis are excluded from the group), so
  a match at a position is found by one pass: greedy choices never have to be undone.
  \<open>match_url_at s\<close> is the match at the head of \<open>s\<close>: the group and what follows the match.
\<close>

definition url_char :: "nat \<Rightarrow> bool" where
  "url_char c = (c \<noteq> 0x22 \<and> c \<noteq> 0x27 \<and> c \<noteq> 0x29 \<and> \<not> isspace c)"

definition skip_quote :: "pystr \<Rightarrow> pystr" where
  "skip_quote s = (case s of c # cs \<Rightarrow> if c = 0x22 \<or> c = 0x27 then cs else s | [] \<Rightarrow> s)"

definition match_url_at :: "pystr \<Rightarrow> (pystr \<times> pystr) option" where
  "match_url_at s =
     (if startswith s (S ''url'') then
        (case dropWhile isspace (drop 3 s) of
           c # after_paren \<Rightarrow>
             if c = 0x28 then
               (let body = skip_quote (dropWhile isspace after_paren);
                    grp = takeWhile url_char body
                in if grp = [] then None
                   else (case dropWhile isspace (skip_quote (dropWhile url_char body)) of
                           d # rest \<Rightarrow> if d = 0x29 then Some (grp, rest) else None
                         | [] \<Rightarrow> None))
             else None
         | [] \<Rightarrow> None)
      else None)"

lemma skip_quote_length: "length (skip_quote s) \<le> length s"
  by (simp add: skip_quote_def split: list.splits)

lemma dropWhile_length_trans: "length a \<le> length b \<Longrightarrow> length (dropWhile P a) \<le> length b"
  using length_dropWhile_le [of P a] by simp

lemma match_url_at_shorter:
  assumes "match_url_at s = Some (grp, rest)"
  shows "length rest < length s"
proof -
  from assms obtain after_paren body d where
      a: "dropWhile isspace (drop 3 s) = 0x28 # after_paren"
    and b: "body = skip_quote (dropWhile isspace after_paren)"
    and c: "dropWhile isspace (skip_quote (dropWhile url_char body)) = d # rest"
    by (auto simp: match_url_at_def Let_def split: if_splits list.splits)
  have "length (d # rest) \<le> length body"
    unfolding c [symmetric]
    by (intro dropWhile_length_trans order_trans [OF skip_quote_length]) simp
  also have "length body \<le> length after_paren"
    unfolding b by (intro order_trans [OF skip_quote_length] dropWhile_length_trans) simp
  also have "length after_paren < length (dropWhile isspace (drop 3 s))"
    unfolding a by simp
  also have "\<dots> \<le> length s"
    by (intro dropWhile_length_trans) simp
  finally show ?thesis by simp
qed

text \<open>
  The text cut at the matches, as \<open>re.finditer\<close> and \<open>re.sub\<close> see it: a match with its
  text and its group, or one character that starts no match.
\<close>

datatype css_token = Plain nat | UrlRef pystr pystr

function css_tokens :: "pystr \<Rightarrow> css_token list" where
  "css_tokens [] = []"
| "css_tokens (c # cs) =
     (case match_url_at (c # cs) of
        Some (grp, rest) \<Rightarrow>
          UrlRef (take (length (c # cs) - length rest) (c # cs)) grp # css_tokens rest
      | None \<Rightarrow> Plain c # css_tokens cs)"
  by pat_completeness auto
termination
  by (relation "measure length") (auto dest: match_url_at_shorter)

declare css_tokens.simps [simp del]

text \<open>\<open>re.sub(url_pattern, replace_url, css_content)\<close>.\<close>

definition css_sub :: "(pystr \<Rightarrow> pystr \<Rightarrow> pystr) \<Rightarrow> pystr \<Rightarrow> pystr" where
  "css_sub replace_url css_content =
     concat (map (\<lambda>t. case t of Plain c \<Rightarrow> [c] | UrlRef whole grp \<Rightarrow> replace_url whole grp)
               (css_tokens css_content))"

definition css_groups :: "pystr \<Rightarrow> pystr list" where
  "css_groups css_content =
     concat (map (\<lambda>t. case t of Plain c \<Rightarrow> [] | UrlRef whole grp \<Rightarrow> [grp])
               (css_tokens css_content))"

subsection \<open>\<open>_collect_all_assets\<close>\<close>

text \<open>
  One entry of \<open>all_assets\<close>. An element reference is (position of the tag, attribute,
  original URL); a stylesheet reference is (stylesheet URL, original URL in the
  stylesheet). \<open>css_content\<close> is \<open>None\<close> both when the key is absent and when it holds
  \<open>None\<close>: the one reader treats the two alike.
\<close>

record asset_info =
  atype :: string
  original_url :: pystr
  element_refs :: "(nat \<times> string \<times> pystr) list"
  css_refs :: "(pystr \<times> pystr) list"
  css_content :: "pystr option"

type_synonym assets = "(pystr \<times> asset_info) list"

definition url_attributes :: "(string \<times> string list) list" where
  "url_attributes =
     [(''img'', [''src'', ''data-src'']), (''script'', [''src'']), (''source'', [''src'']),
      (''video'', [''src'', ''poster'']), (''audio'', [''src'']), (''object'', [''data'']),
      (''embed'', [''src''])]"

text \<open>The places the three nested loops visit, in their order.\<close>

definition attr_places :: "(string \<times> string list) list \<Rightarrow> soup \<Rightarrow> (nat \<times> string) list" where
  "attr_places table sp =
     concat (map (\<lambda>(tag_name, attributes).
               concat (map (\<lambda>i. map (\<lambda>attr. (i, attr)) attributes) (find_all sp tag_name)))
             table)"

definition dict_modify :: "('k \<times> 'v) list \<Rightarrow> 'k \<Rightarrow> ('v \<Rightarrow> 'v) \<Rightarrow> ('k \<times> 'v) list" where
  "dict_modify d k f = map (\<lambda>(k', v). if k' = k then (k', f v) else (k', v)) d"

definition ensure_asset :: "assets \<Rightarrow> pystr \<Rightarrow> asset_info \<Rightarrow> assets" where
  "ensure_asset all_assets k info = (if dict_has all_assets k then all_assets else all_assets @ [(k, info)])"

definition collect_html_step :: "pylib \<Rightarrow> soup \<Rightarrow> pystr \<Rightarrow> assets \<Rightarrow> nat \<times> string \<Rightarrow> assets" where
  "collect_html_step lb sp base_url all_assets place =
     (case downloadable_attr (sp ! fst place) (snd place) of
        None \<Rightarrow> all_assets
      | Some orig \<Rightarrow>
          let normalized_url = normalize_url lb orig (Some base_url);
              a1 = ensure_asset all_assets normalized_url
                     \<lparr>atype = ''html_asset'', original_url = orig, element_refs = [],
                      css_refs = [], css_content = None\<rparr>
          in dict_modify a1 normalized_url
               (\<lambda>info. info\<lparr>element_refs := element_refs info @ [(fst place, snd place, orig)]\<rparr>))"

text \<open>The loop over the matches of one fetched stylesheet.\<close>

definition collect_css_ref :: "pylib \<Rightarrow> pystr \<Rightarrow> assets \<Rightarrow> pystr \<Rightarrow> assets" where
  "collect_css_ref lb css_url all_assets css_asset_url =
     (if startswith css_asset_url (S ''data:'') \<or> startswith css_asset_url (S ''#'')
      then all_assets
      else
        let normalized_css_asset = normalize_url lb css_asset_url (Some css_url);
            a1 = ensure_asset all_assets normalized_css_asset
                   \<lparr>atype = ''css_asset'', original_url = css_asset_url, element_refs = [],
                    css_refs = [], css_content = None\<rparr>
        in dict_modify a1 normalized_css_asset
             (\<lambda>info. info\<lparr>css_refs := css_refs info @ [(css_url, css_asset_url)]\<rparr>))"

text \<open>
  One stylesheet link: the stylesheet is fetched here, with \<open>requests\<close>, to read its
  references; a failed fetch leaves \<open>css_content\<close> empty. \<open>raise_for_status\<close> of requests
  raises for the statuses 400 to 599.
\<close>

definition collect_css_link ::
  "env \<Rightarrow> soup \<Rightarrow> pystr \<Rightarrow> assets \<times> state \<Rightarrow> nat \<Rightarrow> assets \<times> state" where
  "collect_css_link e sp base_url acc i =
     (case map_of (attrs (sp ! i)) ''href'' of
        Some (Str href) \<Rightarrow>
          if href = [] then acc
          else
            let (all_assets, s) = acc;
                css_url = normalize_url (libs e) href (Some base_url);
                a1 = ensure_asset all_assets css_url
                       \<lparr>atype = ''css_file'', original_url = href,
                        element_refs = [(i, ''href'', href)], css_refs = [], css_content = None\<rparr>;
                (r, s1) = http_request e s GET css_url
            in (case r of
                  Response status content txt content_type \<Rightarrow>
                    if 400 \<le> status \<and> status < 600
                    then (dict_modify a1 css_url (\<lambda>info. info\<lparr>css_content := None\<rparr>), s1)
                    else
                      (fold (\<lambda>g a. collect_css_ref (libs e) css_url a g) (css_groups txt)
                         (dict_modify a1 css_url (\<lambda>info. info\<lparr>css_content := Some txt\<rparr>)),
                       s1)
                | ClientError \<Rightarrow> (dict_modify a1 css_url (\<lambda>info. info\<lparr>css_content := None\<rparr>), s1)
                | TimeoutError \<Rightarrow> (dict_modify a1 css_url (\<lambda>info. info\<lparr>css_content := None\<rparr>), s1)
                | OtherException \<Rightarrow>
                    (dict_modify a1 css_url (\<lambda>info. info\<lparr>css_content := None\<rparr>), s1))
      | _ \<Rightarrow> acc)"

definition collect_all_assets :: "env \<Rightarrow> state \<Rightarrow> soup \<Rightarrow> pystr \<Rightarrow> assets \<times> state" where
  "collect_all_assets e s sp base_url =
     (let html_assets = fold (\<lambda>place a. collect_html_step (libs e) sp base_url a place)
                          (attr_places url_attributes sp) []
      in fold (\<lambda>i acc. collect_css_link e sp base_url acc i) (find_stylesheet_links sp)
           (html_assets, s))"

subsection \<open>\<open>_download_assets_parallel\<close> and \<open>_download_all_assets_unified\<close>\<close>

text \<open>
  The tasks of the batch run under a semaphore of five and interleave at their network
  and disk operations; the model runs them one after the other in list order. The two
  agree as long as no two tasks of a batch share a URL or a file name. A result counts
  when it is a non-empty string (\<open>if local_path:\<close>).
\<close>

definition truthy :: "pystr option \<Rightarrow> pystr option" where
  "truthy r = (case r of Some p \<Rightarrow> if p \<noteq> [] then Some p else None | None \<Rightarrow> None)"

fun run_downloads ::
  "env \<Rightarrow> pystr \<Rightarrow> pystr list \<Rightarrow> (pystr \<times> pystr) list \<times> state \<Rightarrow> (pystr \<times> pystr) list \<times> state" where
  "run_downloads e base_url [] acc = acc"
| "run_downloads e base_url (url # urls) acc =
     (let (r, s1) = download_asset_async e (snd acc) url base_url
      in run_downloads e base_url urls
           (case truthy r of
              Some local_path \<Rightarrow> (dict_set (fst acc) url local_path, s1)
            | None \<Rightarrow> (fst acc, s1)))"

definition download_assets_parallel ::
  "env \<Rightarrow> state \<Rightarrow> pystr list \<Rightarrow> pystr \<Rightarrow> (pystr \<times> pystr) list \<times> state" where
  "download_assets_parallel e s asset_urls base_url =
     (let downloadable_urls = filter (\<lambda>url. \<not> not_fetchable url) asset_urls in
      if downloadable_urls = [] then ([], s)
      else
        let (downloaded_assets, s1) = run_downloads e base_url downloadable_urls ([], s);
            s2 = save_global_asset_cache e s1;
            failed_downloads = length downloadable_urls - length downloaded_assets
        in (downloaded_assets, (record_download_failure ^^ failed_downloads) s2))"

definition skipped_prefix :: "pystr \<Rightarrow> bool" where
  "skipped_prefix url =
     (startswith url (S ''data:'') \<or> startswith url (S ''javascript:'') \<or> startswith url (S ''#''))"

definition download_all_assets_unified ::
  "env \<Rightarrow> state \<Rightarrow> assets \<Rightarrow> (pystr \<times> pystr) list \<times> state" where
  "download_all_assets_unified e s all_assets =
     (let downloadable_assets = filter (\<lambda>(normalized_url, info). \<not> skipped_prefix normalized_url)
                                  all_assets in
      if downloadable_assets = [] then ([], s)
      else download_assets_parallel e s (map fst downloadable_assets) [])"

subsection \<open>\<open>_update_css_urls\<close> and \<open>_update_html_with_unified_assets\<close>\<close>

text \<open>
  The search of \<open>replace_url\<close>: the first asset, in the order of \<open>all_assets\<close>, that has a
  stylesheet reference with this original URL and was downloaded.
\<close>

fun css_replacement :: "assets \<Rightarrow> (pystr \<times> pystr) list \<Rightarrow> pystr \<Rightarrow> pystr option" where
  "css_replacement [] downloaded orig = None"
| "css_replacement ((normalized_url, info) # rest) downloaded orig =
     (if list_ex (\<lambda>(css_url, original). original = orig) (css_refs info) then
        (case map_of downloaded normalized_url of
           Some local_path \<Rightarrow> Some local_path
         | None \<Rightarrow> css_replacement rest downloaded orig)
      else css_replacement rest downloaded orig)"

definition update_css_urls :: "pystr \<Rightarrow> assets \<Rightarrow> (pystr \<times> pystr) list \<Rightarrow> pystr" where
  "update_css_urls content all_assets downloaded =
     css_sub (\<lambda>whole orig.
        if \<not> (startswith orig (S ''data:'') \<or> startswith orig (S ''#'')) then
          (case css_replacement all_assets downloaded orig of
             Some local_path \<Rightarrow> S ''url('' @ [0x22] @ local_path @ [0x22] @ S '')''
           | None \<Rightarrow> whole)
        else whole) content"

text \<open>\<open>Path(local_path).name\<close>.\<close>

definition path_name :: "pystr \<Rightarrow> pystr" where
  "path_name p =
     (let parts = filter (\<lambda>x. x \<noteq> [] \<and> x \<noteq> S ''.'') (split_on 0x2F p)
      in if parts = [] then [] else last parts)"

text \<open>
  Writing text to a file (\<open>open(path, 'w', encoding='utf-8')\<close>, then \<open>write\<close>): the file is
  created empty when it opens, and a string that cannot be encoded leaves it so. The
  callers catch every exception of the two steps.
\<close>

definition write_text_file :: "env \<Rightarrow> state \<Rightarrow> pystr \<Rightarrow> pystr \<Rightarrow> bool \<times> state" where
  "write_text_file e s name txt =
     (if name = [] \<or> write_fails e name then (False, s)
      else case utf8_encode txt of
             Inl err \<Rightarrow> (False, write_file s name [])
           | Inr bs \<Rightarrow> (True, write_file s name bs))"

definition update_entry ::
  "env \<Rightarrow> assets \<Rightarrow> (pystr \<times> pystr) list \<Rightarrow> (pystr \<times> pystr) list \<times> soup \<times> state
     \<Rightarrow> pystr \<times> asset_info \<Rightarrow> (pystr \<times> pystr) list \<times> soup \<times> state" where
  "update_entry e all_assets downloaded acc entry =
     (case map_of downloaded (fst entry) of
        None \<Rightarrow> acc
      | Some local_path \<Rightarrow>
          let (result_mapping, sp, s) = acc;
              info = snd entry;
              rm1 = fold (\<lambda>(i, attr, orig) rm. dict_set rm orig local_path) (element_refs info)
                      result_mapping;
              sp1 = fold (\<lambda>(i, attr, orig) sp'. set_attr sp' i attr local_path) (element_refs info) sp
          in case (if atype info = ''css_file'' then css_content info else None) of
               Some content \<Rightarrow>
                 if content \<noteq> [] then
                   (rm1, sp1,
                    snd (write_text_file e s (path_name local_path)
                           (update_css_urls content all_assets downloaded)))
                 else (rm1, sp1, s)
             | None \<Rightarrow> (rm1, sp1, s))"

definition update_html_with_unified_assets ::
  "env \<Rightarrow> state \<Rightarrow> soup \<Rightarrow> assets \<Rightarrow> (pystr \<times> pystr) list
     \<Rightarrow> (pystr \<times> pystr) list \<times> soup \<times> state" where
  "update_html_with_unified_assets e s sp all_assets downloaded =
     fold (\<lambda>entry acc. update_entry e all_assets downloaded acc entry) all_assets ([], sp, s)"

subsection \<open>The parallel attempt\<close>

text \<open>
  The test \<open>len(downloaded) >= len(all_assets) * 0.8\<close> multiplies by the double nearest
  to 0.8. For fewer than \<open>2^50\<close> assets the rounded product lies on the same side of every
  integer as four fifths of the count, so the test is \<open>4 * len(all_assets) <= 5 *
  len(downloaded)\<close>.
\<close>

definition success_threshold_met :: "nat \<Rightarrow> nat \<Rightarrow> bool" where
  "success_threshold_met n_downloaded n_assets = (4 * n_assets \<le> 5 * n_downloaded)"

text \<open>
  The parallel branch of \<open>_download_assets_with_retry\<close> up to \<open>downloaded_assets\<close>. It works
  on \<open>soup_copy\<close>, a deep copy of the document: the element references collected, and
  rewritten, are tags of the copy. The result holds the copy as the branch leaves it.
\<close>

definition parallel_attempt ::
  "env \<Rightarrow> state \<Rightarrow> soup \<Rightarrow> pystr \<Rightarrow> (pystr \<times> pystr) list \<times> soup \<times> state" where
  "parallel_attempt e s sp url =
     (let soup_copy = sp;
          (all_assets, s1) = collect_all_assets e s soup_copy url;
          (downloaded_assets_unified, s2) = download_all_assets_unified e s1 all_assets
      in if success_threshold_met (length downloaded_assets_unified) (length all_assets)
         then update_html_with_unified_assets e s2 soup_copy all_assets downloaded_assets_unified
         else (downloaded_assets_unified, soup_copy, s2))"

subsection \<open>\<open>_process_css_urls\<close> and \<open>_normalize_urls_in_html\<close> (the sequential branch)\<close>

text \<open>
  \<open>_process_css_urls\<close>: \<open>re.sub\<close> whose replacement function downloads the reference.
  The state and the dictionary of downloads pass from one match to the next.
\<close>

fun process_css_tokens ::
  "env \<Rightarrow> pystr \<Rightarrow> css_token list \<Rightarrow> (pystr \<times> pystr) list \<times> state
     \<Rightarrow> pystr \<times> (pystr \<times> pystr) list \<times> state" where
  "process_css_tokens e css_base_url [] acc = ([], acc)"
| "process_css_tokens e css_base_url (Plain c # ts) acc =
     (let (out, acc') = process_css_tokens e css_base_url ts acc in (c # out, acc'))"
| "process_css_tokens e css_base_url (UrlRef whole orig # ts) acc =
     (if \<not> (startswith orig (S ''data:'') \<or> startswith orig (S ''#'')) then
        (let (r, s1) = download_asset e (snd acc) orig css_base_url in
         case truthy r of
           Some local_path \<Rightarrow>
             (let (out, acc') = process_css_tokens e css_base_url ts
                                  (dict_set (fst acc) orig local_path, s1)
              in (S ''url('' @ [0x22] @ local_path @ [0x22] @ S '')'' @ out, acc'))
         | None \<Rightarrow>
             (let (out, acc') = process_css_tokens e css_base_url ts (fst acc, s1)
              in (whole @ out, acc')))
      else (let (out, acc') = process_css_tokens e css_base_url ts acc in (whole @ out, acc')))"

definition process_css_urls ::
  "env \<Rightarrow> state \<Rightarrow> pystr \<Rightarrow> pystr \<Rightarrow> (pystr \<times> pystr) list
     \<Rightarrow> pystr \<times> (pystr \<times> pystr) list \<times> state" where
  "process_css_urls e s content css_base_url downloaded =
     process_css_tokens e css_base_url (css_tokens content) (downloaded, s)"

definition seq_url_attributes :: "(string \<times> string list) list" where
  "seq_url_attributes =
     [(''img'', [''src'', ''data-src'']), (''link'', [''href'']), (''script'', [''src'']),
      (''source'', [''src'']), (''video'', [''src'', ''poster'']), (''audio'', [''src'']),
      (''object'', [''data'']), (''embed'', [''src''])]"

text \<open>The test that skips stylesheet links in the first loop.\<close>

definition rel_has_stylesheet :: "element \<Rightarrow> bool" where
  "rel_has_stylesheet el =
     (case map_of (attrs el) ''rel'' of
        None \<Rightarrow> False
      | Some (Str v) \<Rightarrow> v = S ''stylesheet''
      | Some (Multi vs) \<Rightarrow> S ''stylesheet'' \<in> set vs)"

definition seq_html_step ::
  "env \<Rightarrow> pystr \<Rightarrow> (pystr \<times> pystr) list \<times> soup \<times> state \<Rightarrow> nat \<times> string
     \<Rightarrow> (pystr \<times> pystr) list \<times> soup \<times> state" where
  "seq_html_step e base_url acc place =
     (let (downloaded, sp, s) = acc; el = sp ! fst place in
      if tag el = ''link'' \<and> rel_has_stylesheet el then acc
      else case downloadable_attr el (snd place) of
             None \<Rightarrow> acc
           | Some orig \<Rightarrow>
               let full_url = normalize_url (libs e) orig (Some base_url);
                   (r, s1) = download_asset e s full_url base_url
               in case truthy r of
                    Some local_path \<Rightarrow>
                      (dict_set downloaded orig local_path,
                       set_attr sp (fst place) (snd place) local_path, s1)
                  | None \<Rightarrow> (downloaded, sp, s1))"

text \<open>
  One stylesheet link of the second loop. \<open>urljoin\<close> stands before the \<open>try\<close>: when it
  raises, the whole function raises (\<open>Inl\<close>). Every exception inside the \<open>try\<close> is logged
  and the loop goes on; what was downloaded before it stays.
\<close>

definition seq_css_link ::
  "env \<Rightarrow> pystr \<Rightarrow> (pystr \<times> pystr) list \<times> soup \<times> state \<Rightarrow> nat
     \<Rightarrow> py_error + ((pystr \<times> pystr) list \<times> soup \<times> state)" where
  "seq_css_link e base_url acc i =
     (let (downloaded, sp, s) = acc in
      case map_of (attrs (sp ! i)) ''href'' of
        Some (Str href) \<Rightarrow>
          if href = [] then Inr acc
          else
            (case (if is_absolute_http href then Inr href else urljoin (libs e) base_url href) of
               Inl err \<Rightarrow> Inl err
             | Inr css_url \<Rightarrow>
                 let (r, s1) = http_request e s GET css_url in
                 (case r of
                    Response status content txt content_type \<Rightarrow>
                      if 400 \<le> status \<and> status < 600 then Inr (downloaded, sp, s1)
                      else
                        let (processed, downloaded1, s2) = process_css_urls e s1 txt css_url downloaded
                        in (case generate_unique_filename e css_url of
                              Inl err \<Rightarrow> Inr (downloaded1, sp, s2)
                            | Inr name0 \<Rightarrow>
                                let css_base_filename =
                                      (if endswith name0 (S ''.css'') then name0 else name0 @ S ''.css'');
                                    css_filename = get_asset_path_prefix e @ css_base_filename;
                                    (ok, s3) = write_text_file e s2 css_base_filename processed
                                in if \<not> ok then Inr (downloaded1, sp, s3)
                                   else Inr (dict_set downloaded1 href css_filename,
                                             set_attr sp i ''href'' css_filename,
                                             save_global_asset_cache e
                                               (cache_downloaded_asset s3 css_url css_filename)))
                  | ClientError \<Rightarrow> Inr (downloaded, sp, s1)
                  | TimeoutError \<Rightarrow> Inr (downloaded, sp, s1)
                  | OtherException \<Rightarrow> Inr (downloaded, sp, s1)))
      | _ \<Rightarrow> Inr acc)"

text \<open>
  The loop over the stylesheet links; an exception ends it. The document and the state
  are returned in both cases: what the loop did before the exception is done.
\<close>

fun seq_css_links ::
  "env \<Rightarrow> pystr \<Rightarrow> nat list \<Rightarrow> (pystr \<times> pystr) list \<times> soup \<times> state
     \<Rightarrow> (py_error + (pystr \<times> pystr) list) \<times> soup \<times> state" where
  "seq_css_links e base_url [] acc = (Inr (fst acc), snd acc)"
| "seq_css_links e base_url (i # is) acc =
     (case seq_css_link e base_url acc i of
        Inl err \<Rightarrow> (Inl err, snd acc)
      | Inr acc' \<Rightarrow> seq_css_links e base_url is acc')"

definition normalize_urls_in_html ::
  "env \<Rightarrow> state \<Rightarrow> soup \<Rightarrow> pystr \<Rightarrow> (py_error + (pystr \<times> pystr) list) \<times> soup \<times> state" where
  "normalize_urls_in_html e s sp base_url =
     (let acc = fold (\<lambda>place a. seq_html_step e base_url a place)
                  (attr_places seq_url_attributes sp) ([], sp, s)
      in seq_css_links e base_url (find_stylesheet_links (fst (snd acc))) acc)"

subsection \<open>\<open>_download_assets_with_retry\<close>\<close>

text \<open>
  One round of the \<open>for\<close> loop up to its \<open>return\<close>: \<open>True\<close> when the round returns
  \<open>True\<close>, \<open>False\<close> when an exception reaches the handler of the round (a failure was
  counted, a sequential stylesheet URL could not be joined, or the manifest could not be
  written). The parallel branch hands back the document it was given: it rewrote its
  own copy. The manifest is written only when something was downloaded.
\<close>

definition attempt_once :: "env \<Rightarrow> state \<Rightarrow> soup \<Rightarrow> pystr \<Rightarrow> bool \<times> soup \<times> state" where
  "attempt_once e s sp url =
     (let s0 = reset_download_failure_tracking s;
          (outcome, sp1, s1) =
            (if parallel_downloads e then
               (let (downloaded_assets, soup_copy, s') = parallel_attempt e s0 sp url
                in (Inr downloaded_assets, sp, s'))
             else normalize_urls_in_html e s0 sp url)
      in case outcome of
           Inl err \<Rightarrow> (False, sp1, s1)
         | Inr downloaded_assets \<Rightarrow>
             if download_failures s1 > 0 then (False, sp1, s1)
             else if length downloaded_assets > 0 then
               (if manifest_write_fails e then (False, sp1, s1)
                else (True, sp1, s1\<lparr>manifest := Some downloaded_assets\<rparr>))
             else (True, sp1, s1))"

text \<open>
  The loop \<open>for attempt in range(max_retries)\<close>, from round \<open>attempt\<close> on; a failed round
  that is not the last waits \<open>2 ** (attempt + 1)\<close> seconds.
\<close>

function attempts_from ::
  "env \<Rightarrow> soup \<Rightarrow> pystr \<Rightarrow> nat \<Rightarrow> nat \<Rightarrow> state \<Rightarrow> bool \<times> soup \<times> state" where
  "attempts_from e sp url max_retries attempt s =
     (if attempt < max_retries then
        (let (ok, sp1, s1) = attempt_once e s sp url in
         if ok then (True, sp1, s1)
         else if attempt < max_retries - 1
         then attempts_from e sp1 url max_retries (attempt + 1)
                (s1\<lparr>sleeps := sleeps s1 @ [2 ^ (attempt + 1)]\<rparr>)
         else (False, sp1, s1))
      else (False, sp, s))"
  by pat_completeness auto
termination
  by (relation "measure (\<lambda>(e, sp, url, max_retries, attempt, s). max_retries - attempt)") auto

declare attempts_from.simps [simp del]

definition download_assets_with_retry ::
  "env \<Rightarrow> state \<Rightarrow> soup \<Rightarrow> pystr \<Rightarrow> nat \<Rightarrow> bool \<times> soup \<times> state" where
  "download_assets_with_retry e s sp url max_retries = attempts_from e sp url max_retries 0 s"

subsection \<open>A fresh scraper, and environments for the examples\<close>

text \<open>\<open>__init__\<close> without a global cache: nothing cached, no failure counted, no file.\<close>

definition initial_state :: state where
  "initial_state =
     \<lparr>asset_cache = Map.empty, download_failures = 0, files = [], requests = [],
      cache_file = None, manifest = None, sleeps = []\<rparr>"

text \<open>
  An environment whose every request is answered by \<open>reply_to url\<close>, with a fixed digest
  and no guessed extensions, every file writable, per-banner assets, parallel downloads.
\<close>

definition env_with :: "(pystr \<Rightarrow> reply) \<Rightarrow> env" where
  "env_with reply_to =
     \<lparr>libs = \<lparr>bracketed_host_bad = (\<lambda>h. False), nfkc_bad = (\<lambda>n. False)\<rparr>,
      md5_hexdigest = (\<lambda>bs. S ''0123456789abcdef0123456789abcdef''),
      guess_extension = (\<lambda>t. None),
      http = (\<lambda>n m url. reply_to url),
      write_fails = (\<lambda>name. False),
      manifest_write_fails = False,
      global_assets = False,
      parallel_downloads = True\<rparr>"

subsection \<open>\<open>_count_downloadable_assets\<close>\<close>

text \<open>
  The source's own count of the references of a document: one for every stylesheet link,
  one for every other listed tag that has a downloadable URL in one of its attributes.
\<close>

definition count_downloadable_assets :: "soup \<Rightarrow> nat" where
  "count_downloadable_assets sp =
     sum_list (map (\<lambda>(tag_name, attributes).
        sum_list (map (\<lambda>i.
           if tag_name = ''link'' \<and> rel_has_stylesheet (sp ! i) then 1
           else if list_ex (\<lambda>attr. downloadable_attr (sp ! i) attr \<noteq> None) attributes then 1
           else 0) (find_all sp tag_name))) seq_url_attributes)"

(*THEOREMS*)

section \<open>Properties of the content validator\<close>

text \<open>
  C9. The validator rejects empty content unconditionally: for every expected category
  and every content-type header, a zero-length byte string is rejected, before any
  signature, header or structural check and before the permissive handler can apply.
\<close>

theorem validate_content_type_empty:
  "validate_content_type [] expected_type content_type_header = False"
  by (simp add: validate_content_type_def)

theorem validate_content_type_empty_witness:
  "validate_content_type [] ''css'' (S ''text/css'') = False
   \<and> validate_by_content_type_header (S ''text/css'') ''css''"
proof -
  have "validate_by_content_type_header (S ''text/css'') ''css''"
    by code_simp
  then show ?thesis
    using validate_content_type_empty [of "''css''" "S ''text/css''"] by simp
qed

text \<open>
  C3, as the code has it. For non-empty content the validator accepts if and only if the
  signature check raised (the handler of the \<open>try\<close> answers accept), or one of the three
  checks succeeds: the signature check, the header check, or, for the categories
  \<open>css\<close>, \<open>javascript\<close> and \<open>text\<close>, the structural check. Empty content is rejected
  whatever the checks would say.
\<close>

theorem validate_content_type_nonempty:
  "content \<noteq> [] \<Longrightarrow>
   validate_content_type content expected_type content_type_header =
     (case validate_by_magic_bytes content expected_type of
        Inl e \<Rightarrow> True
      | Inr m \<Rightarrow>
          m \<or> validate_by_content_type_header content_type_header expected_type
            \<or> (expected_type \<in> {''css'', ''javascript'', ''text''}
                \<and> validate_text_content content expected_type))"
  by (simp add: validate_content_type_def validate_content_type_body_def
      split: sum.splits bool.splits)

theorem validate_content_type_nonempty_witness:
  "B ''a{}'' \<noteq> []
   \<and> validate_by_magic_bytes (B ''a{}'') ''css'' = Inr False
   \<and> \<not> validate_by_content_type_header [] ''css''
   \<and> validate_text_content (B ''a{}'') ''css''
   \<and> validate_content_type (B ''a{}'') ''css'' [] = True"
proof -
  have ne: "B ''a{}'' \<noteq> []"
    by (simp add: B_def)
  have m: "validate_by_magic_bytes (B ''a{}'') ''css'' = Inr False"
    by code_simp
  have h: "\<not> validate_by_content_type_header [] ''css''"
    by (simp add: validate_by_content_type_header_def)
  have t: "validate_text_content (B ''a{}'') ''css''"
    by code_simp
  show ?thesis
    using validate_content_type_nonempty [OF ne, of "''css''" "[]"] ne m h t by simp
qed

text \<open>
  The claim as stated fails on empty content: the header check succeeds for the header
  \<open>text/css\<close> and the category \<open>css\<close>, and the validator still rejects.
\<close>

theorem validate_content_type_iff_counterexample:
  "\<not> (validate_content_type [] ''css'' (S ''text/css'')
        = (validate_by_magic_bytes [] ''css'' = Inr True
           \<or> validate_by_content_type_header (S ''text/css'') ''css''
           \<or> validate_text_content [] ''css''))"
proof -
  have "validate_by_content_type_header (S ''text/css'') ''css''"
    by code_simp
  moreover have "\<not> validate_content_type [] ''css'' (S ''text/css'')"
    by (simp add: validate_content_type_def)
  ultimately show ?thesis by simp
qed

text \<open>
  The permissive handler is reachable: a font of 35 bytes without a known signature makes
  the EOT test unpack fewer than four bytes, which raises, and the validator accepts.
\<close>

lemma validate_content_type_struct_error:
  "validate_by_magic_bytes (replicate 35 0x41) ''font'' = Inl StructError
   \<and> validate_content_type (replicate 35 0x41) ''font'' [] = True"
  by code_simp

section \<open>Properties of the URL normalizer\<close>

text \<open>
  C5. The normalizer is total and never raises. The model's \<open>normalize_url\<close> returns a
  string for every input; every place of the \<open>try\<close> that can raise is an \<open>Inl\<close> of
  \<open>normalize_try\<close>. An input that is empty or starts with \<open>data:\<close>, \<open>javascript:\<close> or
  \<open>#\<close> comes back unchanged; so does every input on which parsing, joining or
  re-encoding raises, and every relative reference without a base URL.
\<close>

theorem normalize_url_never_raises:
  "(not_fetchable url \<longrightarrow> normalize_url lib url base_url = url)
   \<and> (\<forall>e. normalize_try lib url base_url = Inl e \<longrightarrow> normalize_url lib url base_url = url)
   \<and> (\<not> is_absolute_http url \<and> (base_url = None \<or> base_url = Some [])
        \<longrightarrow> normalize_url lib url base_url = url)"
  by (auto simp: normalize_url_def normalize_try_def split: option.splits)

theorem normalize_url_never_raises_witness:
  "not_fetchable (S ''data:image/png;base64,AAAA'')
   \<and> normalize_url \<lparr>bracketed_host_bad = (\<lambda>h. False), nfkc_bad = (\<lambda>n. False)\<rparr>
         (S ''data:image/png;base64,AAAA'') (Some (S ''http://example.com/'')) =
       S ''data:image/png;base64,AAAA''
   \<and> normalize_try \<lparr>bracketed_host_bad = (\<lambda>h. False), nfkc_bad = (\<lambda>n. False)\<rparr>
         (S ''http://[bad/x.png'') None = Inl ValueError
   \<and> normalize_url \<lparr>bracketed_host_bad = (\<lambda>h. False), nfkc_bad = (\<lambda>n. False)\<rparr>
         (S ''http://[bad/x.png'') None = S ''http://[bad/x.png''
   \<and> normalize_try \<lparr>bracketed_host_bad = (\<lambda>h. False), nfkc_bad = (\<lambda>n. False)\<rparr>
         (S ''http://a/'' @ [0xD800]) None = Inl UnicodeEncodeError
   \<and> normalize_url \<lparr>bracketed_host_bad = (\<lambda>h. False), nfkc_bad = (\<lambda>n. False)\<rparr>
         (S ''http://a/'' @ [0xD800]) None = S ''http://a/'' @ [0xD800]
   \<and> \<not> is_absolute_http (S ''img/a b.png'')
   \<and> normalize_url \<lparr>bracketed_host_bad = (\<lambda>h. False), nfkc_bad = (\<lambda>n. False)\<rparr>
         (S ''img/a b.png'') None = S ''img/a b.png''"
proof -
  let ?lib = "\<lparr>bracketed_host_bad = (\<lambda>h. False), nfkc_bad = (\<lambda>n. False)\<rparr>"
  have a: "not_fetchable (S ''data:image/png;base64,AAAA'')"
    by code_simp
  have b: "normalize_try ?lib (S ''http://[bad/x.png'') None = Inl ValueError"
    by code_simp
  have c: "normalize_try ?lib (S ''http://a/'' @ [0xD800]) None = Inl UnicodeEncodeError"
    by code_simp
  have d: "\<not> is_absolute_http (S ''img/a b.png'')"
    by code_simp
  show ?thesis
    using a b c d
      normalize_url_never_raises [of "S ''data:image/png;base64,AAAA''" ?lib
        "Some (S ''http://example.com/'')"]
      normalize_url_never_raises [of "S ''http://[bad/x.png''" ?lib None]
      normalize_url_never_raises [of "S ''http://a/'' @ [0xD800]" ?lib None]
      normalize_url_never_raises [of "S ''img/a b.png''" ?lib None]
    by simp
qed

section \<open>Properties of the asset cache\<close>

text \<open>
  C7, as the code has it. \<open>_cache_downloaded_asset\<close> assigns without looking: committing
  the same URL twice with the same path changes nothing the second time, and committing
  it with another path replaces the entry, so the cache holds the path committed last.
\<close>

theorem cache_commit_last_write_wins:
  "cache_downloaded_asset (cache_downloaded_asset s url p) url p = cache_downloaded_asset s url p
   \<and> cache_downloaded_asset (cache_downloaded_asset s url p1) url p2 = cache_downloaded_asset s url p2
   \<and> (strip url \<noteq> [] \<longrightarrow>
        asset_cache (cache_downloaded_asset (cache_downloaded_asset s url p1) url p2) (strip url)
          = Some p2)"
  by (simp add: cache_downloaded_asset_def Let_def)

theorem cache_commit_last_write_wins_witness:
  "strip (S ''http://a/x.png'') \<noteq> []
   \<and> asset_cache
        (cache_downloaded_asset
           (cache_downloaded_asset
              \<lparr>asset_cache = Map.empty, download_failures = 0, files = [], requests = [],
                cache_file = None, manifest = None, sleeps = []\<rparr>
              (S ''http://a/x.png'') (S ''assets/one.png''))
           (S ''http://a/x.png'') (S ''assets/two.png''))
        (strip (S ''http://a/x.png'')) = Some (S ''assets/two.png'')"
proof -
  have ne: "strip (S ''http://a/x.png'') \<noteq> []"
    by code_simp
  from cache_commit_last_write_wins
      [of "\<lparr>asset_cache = Map.empty, download_failures = 0, files = [], requests = [],
            cache_file = None, manifest = None, sleeps = []\<rparr>"
          "S ''http://a/x.png''" "S ''assets/one.png''" "S ''assets/one.png''" "S ''assets/two.png''"]
  have "strip (S ''http://a/x.png'') \<noteq> [] \<longrightarrow>
        asset_cache
        (cache_downloaded_asset
           (cache_downloaded_asset
              \<lparr>asset_cache = Map.empty, download_failures = 0, files = [], requests = [],
                cache_file = None, manifest = None, sleeps = []\<rparr>
              (S ''http://a/x.png'') (S ''assets/one.png''))
           (S ''http://a/x.png'') (S ''assets/two.png''))
        (strip (S ''http://a/x.png'')) = Some (S ''assets/two.png'')"
    by (rule conjunct2 [THEN conjunct2])
  with ne show ?thesis by blast
qed

text \<open>
  The claim as stated fails: after two commits of one URL with different paths the cache
  does not answer with the path committed first.
\<close>

theorem cache_commit_idempotent_counterexample:
  "asset_cache
     (cache_downloaded_asset
        (cache_downloaded_asset
           \<lparr>asset_cache = Map.empty, download_failures = 0, files = [], requests = [],
             cache_file = None, manifest = None, sleeps = []\<rparr>
           (S ''http://a/x.png'') (S ''assets/one.png''))
        (S ''http://a/x.png'') (S ''assets/two.png''))
     (S ''http://a/x.png'')
   \<noteq> asset_cache
       (cache_downloaded_asset
          \<lparr>asset_cache = Map.empty, download_failures = 0, files = [], requests = [],
            cache_file = None, manifest = None, sleeps = []\<rparr>
          (S ''http://a/x.png'') (S ''assets/one.png''))
       (S ''http://a/x.png'')"
proof -
  have st: "strip (S ''http://a/x.png'') = S ''http://a/x.png''"
    by code_simp
  have ne: "S ''http://a/x.png'' \<noteq> []" "S ''assets/two.png'' \<noteq> S ''assets/one.png''"
    by code_simp+
  show ?thesis
    using ne by (simp add: cache_downloaded_asset_def Let_def st)
qed

section \<open>Properties of the fetch functions\<close>

text \<open>The \<open>HEAD\<close> request of \<open>_download_asset\<close> touches nothing but the list of requests.\<close>

lemma head_extension_state:
  "head_extension e s u f = (f', s') \<Longrightarrow>
     asset_cache s' = asset_cache s \<and> download_failures s' = download_failures s
     \<and> files s' = files s \<and> cache_file s' = cache_file s \<and> manifest s' = manifest s
     \<and> sleeps s' = sleeps s
     \<and> filter (\<lambda>q. fst q = GET) (requests s') = filter (\<lambda>q. fst q = GET) (requests s)"
  by (auto simp: head_extension_def http_request_def Let_def
           split: if_splits reply.splits option.splits prod.splits)

lemma async_failure:
  assumes full: "full_url = normalize_url (libs e) asset_url (Some base_url)"
    and miss: "asset_cache s full_url = None"
    and name: "generate_unique_filename e full_url = Inr filename0"
    and web: "is_http_url full_url"
    and reply: "http e (length (requests s)) GET full_url = r"
    and bad: "r = ClientError \<or> r = TimeoutError
        \<or> (\<exists>status content txt h. r = Response status content txt h
              \<and> (status = 403 \<or> status = 404 \<or> status = 429
                  \<or> (status < 400 \<and> (\<exists>t. get_expected_content_type (libs e) full_url = Inr t
                        \<and> \<not> validate_content_type content t h))))"
  shows "download_asset_async e s asset_url base_url =
           (None, s\<lparr>requests := requests s @ [(GET, full_url)],
                     download_failures := download_failures s + 1\<rparr>)"
  using bad miss name web reply
  unfolding download_asset_async_def full[symmetric] Let_def http_request_def failed_def
    record_download_failure_def store_asset_def
  by (auto split: reply.splits)

lemma sync_failure:
  assumes full: "full_url = normalize_url (libs e) asset_url (Some base_url)"
    and miss: "asset_cache s full_url = None"
    and name: "generate_unique_filename e full_url = Inr filename0"
    and web: "is_http_url full_url"
    and reply: "\<forall>n. http e n GET full_url = r"
    and bad: "r = ClientError \<or> r = TimeoutError
        \<or> (\<exists>status content txt h. r = Response status content txt h
              \<and> (status = 403 \<or> status = 404 \<or> status = 429
                  \<or> (status < 400 \<and> (\<exists>t. get_expected_content_type (libs e) full_url = Inr t
                        \<and> \<not> validate_content_type content t h))))"
  shows "fst (download_asset e s asset_url base_url) = None
     \<and> download_failures (snd (download_asset e s asset_url base_url)) = download_failures s + 1
     \<and> files (snd (download_asset e s asset_url base_url)) = files s
     \<and> asset_cache (snd (download_asset e s asset_url base_url)) = asset_cache s
     \<and> cache_file (snd (download_asset e s asset_url base_url)) = cache_file s
     \<and> filter (\<lambda>q. fst q = GET) (requests (snd (download_asset e s asset_url base_url)))
         = filter (\<lambda>q. fst q = GET) (requests s) @ [(GET, full_url)]"
proof -
  obtain f1 s0 where h: "head_extension e s full_url filename0 = (f1, s0)"
    by (cases "head_extension e s full_url filename0")
  note hs = head_extension_state[OF h]
  have r0: "http e (length (requests s0)) GET full_url = r" using reply by simp
  have d: "download_asset e s asset_url base_url =
             (None, s0\<lparr>requests := requests s0 @ [(GET, full_url)],
                       download_failures := download_failures s0 + 1\<rparr>)"
    using bad miss name web r0 h
    unfolding download_asset_def full[symmetric] Let_def http_request_def failed_def
      record_download_failure_def store_asset_def
    by (auto split: reply.splits)
  show ?thesis unfolding d using hs by simp
qed

text \<open>
  C6. A fetch that misses the cache and whose \<open>GET\<close> is answered with status 403, 404 or
  429, with a network error, with a timeout, or with content the validator rejects,
  returns \<open>None\<close>, counts exactly one failure, writes no file, commits no cache entry
  and sends that one \<open>GET\<close> only. This holds for \<open>_download_asset_async\<close> (whose whole
  final state is given) and for \<open>_download_asset\<close> (which may send a \<open>HEAD\<close> first).
\<close>

theorem fetch_failure_reported_once:
  assumes full: "full_url = normalize_url (libs e) asset_url (Some base_url)"
    and miss: "asset_cache s full_url = None"
    and name: "generate_unique_filename e full_url = Inr filename0"
    and web: "is_http_url full_url"
    and reply: "\<forall>n. http e n GET full_url = r"
    and bad: "r = ClientError \<or> r = TimeoutError
        \<or> (\<exists>status content txt h. r = Response status content txt h
              \<and> (status = 403 \<or> status = 404 \<or> status = 429
                  \<or> (status < 400 \<and> (\<exists>t. get_expected_content_type (libs e) full_url = Inr t
                        \<and> \<not> validate_content_type content t h))))"
  shows "download_asset_async e s asset_url base_url =
           (None, s\<lparr>requests := requests s @ [(GET, full_url)],
                     download_failures := download_failures s + 1\<rparr>)
     \<and> fst (download_asset e s asset_url base_url) = None
     \<and> download_failures (snd (download_asset e s asset_url base_url)) = download_failures s + 1
     \<and> files (snd (download_asset e s asset_url base_url)) = files s
     \<and> asset_cache (snd (download_asset e s asset_url base_url)) = asset_cache s
     \<and> cache_file (snd (download_asset e s asset_url base_url)) = cache_file s
     \<and> filter (\<lambda>q. fst q = GET) (requests (snd (download_asset e s asset_url base_url)))
         = filter (\<lambda>q. fst q = GET) (requests s) @ [(GET, full_url)]"
proof -
  have r0: "http e (length (requests s)) GET full_url = r" using reply by simp
  from async_failure[OF full miss name web r0 bad] sync_failure[OF full miss name web reply bad]
  show ?thesis by blast
qed

theorem fetch_failure_reported_once_witness:
  "download_asset_async (env_with (\<lambda>url. Response 404 [] [] [])) initial_state (S ''img/a.png'') (S ''http://example.com/banner/'') =
           (None, initial_state\<lparr>requests := requests initial_state @ [(GET, S ''http://example.com/banner/img/a.png'')],
                     download_failures := download_failures initial_state + 1\<rparr>)
     \<and> fst (download_asset (env_with (\<lambda>url. Response 404 [] [] [])) initial_state (S ''img/a.png'') (S ''http://example.com/banner/'')) = None
     \<and> download_failures (snd (download_asset (env_with (\<lambda>url. Response 404 [] [] [])) initial_state (S ''img/a.png'') (S ''http://example.com/banner/''))) = download_failures initial_state + 1
     \<and> files (snd (download_asset (env_with (\<lambda>url. Response 404 [] [] [])) initial_state (S ''img/a.png'') (S ''http://example.com/banner/''))) = files initial_state
     \<and> asset_cache (snd (download_asset (env_with (\<lambda>url. Response 404 [] [] [])) initial_state (S ''img/a.png'') (S ''http://example.com/banner/''))) = asset_cache initial_state
     \<and> cache_file (snd (download_asset (env_with (\<lambda>url. Response 404 [] [] [])) initial_state (S ''img/a.png'') (S ''http://example.com/banner/''))) = cache_file initial_state
     \<and> filter (\<lambda>q. fst q = GET) (requests (snd (download_asset (env_with (\<lambda>url. Response 404 [] [] [])) initial_state (S ''img/a.png'') (S ''http://example.com/banner/''))))
         = filter (\<lambda>q. fst q = GET) (requests initial_state) @ [(GET, S ''http://example.com/banner/img/a.png'')]"
proof (rule fetch_failure_reported_once)
  show "S ''http://example.com/banner/img/a.png'' =
        normalize_url (libs (env_with (\<lambda>url. Response 404 [] [] []))) (S ''img/a.png'') (Some (S ''http://example.com/banner/''))"
    by code_simp
  show "asset_cache initial_state (S ''http://example.com/banner/img/a.png'') = None"
    by (simp add: initial_state_def)
  show "generate_unique_filename (env_with (\<lambda>url. Response 404 [] [] [])) (S ''http://example.com/banner/img/a.png'')
        = Inr (S ''0123456789ab.png'')"
    by code_simp
  show "is_http_url (S ''http://example.com/banner/img/a.png'')"
    by code_simp
  show "\<forall>n. http (env_with (\<lambda>url. Response 404 [] [] [])) n GET (S ''http://example.com/banner/img/a.png'') = Response 404 [] [] []"
    by (simp add: env_with_def)
  show "Response 404 [] [] [] = ClientError \<or> Response 404 [] [] [] = TimeoutError
        \<or> (\<exists>status content txt h. Response 404 [] [] [] = Response status content txt h
              \<and> (status = 403 \<or> status = 404 \<or> status = 429
                  \<or> (status < 400 \<and> (\<exists>t. get_expected_content_type (libs (env_with (\<lambda>url. Response 404 [] [] []))) (S ''http://example.com/banner/img/a.png'') = Inr t
                        \<and> \<not> validate_content_type content t h))))"
    by simp
qed

section \<open>Properties of the attempt controller\<close>

subsection \<open>A document without references\<close>

lemma fold_unchanged: "(\<And>x. x \<in> set xs \<Longrightarrow> f x a = a) \<Longrightarrow> fold f xs a = a"
  by (induction xs) simp_all

lemma join_space_single:
  "join [0x20] vs = t \<Longrightarrow> (0x20::nat) \<notin> set t \<Longrightarrow> t \<noteq> [] \<Longrightarrow> t \<in> set vs"
proof (induction "[0x20::nat]" vs arbitrary: t rule: join.induct)
  case 1
  then show ?case by simp
next
  case (2 p)
  then show ?case by simp
next
  case (3 p q ps)
  then show ?case by auto
qed

lemma rel_matches_has: "rel_matches_stylesheet el \<Longrightarrow> rel_has_stylesheet el"
proof -
  have ns: "(0x20::nat) \<notin> set (S ''stylesheet'')" "S ''stylesheet'' \<noteq> []"
    by (simp_all add: S_def)
  assume "rel_matches_stylesheet el"
  then show ?thesis
    using join_space_single[OF _ ns, of _]
    by (auto simp: rel_matches_stylesheet_def rel_has_stylesheet_def S_def
             split: option.splits attr_value.splits)
qed

lemma sum_list_zero_member: "sum_list (map f xs) = (0::nat) \<Longrightarrow> x \<in> set xs \<Longrightarrow> f x = 0"
  by (induction xs) auto

lemma count_zero_places:
  assumes "count_downloadable_assets sp = 0"
    and "(tag_name, attributes) \<in> set seq_url_attributes"
    and "i \<in> set (find_all sp tag_name)"
  shows "\<not> (tag_name = ''link'' \<and> rel_has_stylesheet (sp ! i))
         \<and> (\<forall>attr \<in> set attributes. downloadable_attr (sp ! i) attr = None)"
proof -
  let ?g = "\<lambda>tag_name attributes i.
           if tag_name = ''link'' \<and> rel_has_stylesheet (sp ! i) then 1
           else if list_ex (\<lambda>attr. downloadable_attr (sp ! i) attr \<noteq> None) attributes then 1
           else (0::nat)"
  let ?f = "\<lambda>x. case x of (tag_name, attributes) \<Rightarrow>
              sum_list (map (?g tag_name attributes) (find_all sp tag_name))"
  have "sum_list (map ?f seq_url_attributes) = 0"
    using assms(1) unfolding count_downloadable_assets_def .
  from sum_list_zero_member[OF this assms(2)]
  have "sum_list (map (?g tag_name attributes) (find_all sp tag_name)) = 0" by simp
  from sum_list_zero_member[OF this assms(3)]
  have "?g tag_name attributes i = 0" .
  then show ?thesis by (auto simp: list_ex_iff split: if_splits)
qed

lemma count_zero_no_stylesheet_links:
  assumes "count_downloadable_assets sp = 0"
  shows "find_stylesheet_links sp = []"
proof (rule ccontr)
  assume "find_stylesheet_links sp \<noteq> []"
  then obtain i where i: "i < length sp" "tag (sp ! i) = ''link''" "rel_matches_stylesheet (sp ! i)"
    by (auto simp: find_stylesheet_links_def filter_empty_conv)
  then have "i \<in> set (find_all sp ''link'')" by (simp add: find_all_def)
  moreover have "(''link'', [''href'']) \<in> set seq_url_attributes"
    by (simp add: seq_url_attributes_def)
  ultimately show False
    using count_zero_places[OF assms] rel_matches_has[OF i(3)] by blast
qed

lemma place_in_table:
  "place \<in> set (attr_places table sp) \<Longrightarrow>
     \<exists>tag_name attributes. (tag_name, attributes) \<in> set table
        \<and> fst place \<in> set (find_all sp tag_name) \<and> snd place \<in> set attributes"
  by (fastforce simp: attr_places_def)

lemma url_attributes_subset: "set url_attributes \<subseteq> set seq_url_attributes"
  by (simp add: url_attributes_def seq_url_attributes_def)

text \<open>Nothing is collected from such a document, and no stylesheet is requested.\<close>

lemma count_zero_collect:
  assumes "count_downloadable_assets sp = 0"
  shows "collect_all_assets e s sp url = ([], s)"
proof -
  have "fold (\<lambda>place a. collect_html_step (libs e) sp url a place) (attr_places url_attributes sp) [] = []"
  proof (rule fold_unchanged)
    fix place assume "place \<in> set (attr_places url_attributes sp)"
    from place_in_table[OF this] url_attributes_subset count_zero_places[OF assms]
    have "downloadable_attr (sp ! fst place) (snd place) = None" by blast
    then show "collect_html_step (libs e) sp url [] place = []"
      by (simp add: collect_html_step_def)
  qed
  then show ?thesis
    by (simp add: collect_all_assets_def count_zero_no_stylesheet_links[OF assms])
qed

lemma count_zero_sequential:
  assumes "count_downloadable_assets sp = 0"
  shows "normalize_urls_in_html e s sp url = (Inr [], sp, s)"
proof -
  have "fold (\<lambda>place a. seq_html_step e url a place) (attr_places seq_url_attributes sp) ([], sp, s)
        = ([], sp, s)"
  proof (rule fold_unchanged)
    fix place assume "place \<in> set (attr_places seq_url_attributes sp)"
    from place_in_table[OF this] count_zero_places[OF assms]
    have "downloadable_attr (sp ! fst place) (snd place) = None" by blast
    then show "seq_html_step e url ([], sp, s) place = ([], sp, s)"
      by (simp add: seq_html_step_def Let_def)
  qed
  then show ?thesis
    by (simp add: normalize_urls_in_html_def count_zero_no_stylesheet_links[OF assms])
qed

lemma count_zero_attempt:
  assumes "count_downloadable_assets sp = 0"
  shows "attempt_once e s sp url = (True, sp, s\<lparr>download_failures := 0\<rparr>)"
  using count_zero_collect[OF assms] count_zero_sequential[OF assms]
  by (simp add: attempt_once_def parallel_attempt_def download_all_assets_unified_def
      success_threshold_met_def update_html_with_unified_assets_def
      reset_download_failure_tracking_def Let_def)

text \<open>
  Claim C8, as the code has it. A document in which \<open>_count_downloadable_assets\<close> finds
  no reference (no stylesheet link, no listed tag with a downloadable URL) completes in
  the first round, in either download mode and whatever the network would answer:
  \<open>_download_assets_with_retry\<close> returns \<open>True\<close>, the document is as it was, and the state
  differs from the one before only in the failure counter, which is reset to zero. So no
  request was made and no file was written; and the manifest \<open>assets.json\<close> was not
  written either: it is as it was before the call, because the source writes it only when
  the number of downloaded assets is positive.
\<close>

theorem no_references_complete_without_fetch:
  assumes "count_downloadable_assets sp = 0" and "0 < max_retries"
  shows "download_assets_with_retry e s sp url max_retries
           = (True, sp, s\<lparr>download_failures := 0\<rparr>)
         \<and> requests (snd (snd (download_assets_with_retry e s sp url max_retries))) = requests s
         \<and> files (snd (snd (download_assets_with_retry e s sp url max_retries))) = files s
         \<and> manifest (snd (snd (download_assets_with_retry e s sp url max_retries))) = manifest s"
  using assms(2) count_zero_attempt[OF assms(1)]
  by (simp add: download_assets_with_retry_def attempts_from.simps[of e sp url max_retries 0 s])

text \<open>
  An instance: a document whose only image is inline (\<open>data:\<close>), three rounds allowed, a
  network on which every request would fail.
\<close>

theorem no_references_complete_without_fetch_witness:
  "count_downloadable_assets
     [\<lparr>tag = ''img'', attrs = [(''src'', Str (S ''data:image/png;base64,AAAA''))]\<rparr>] = 0
   \<and> (0::nat) < 3
   \<and> download_assets_with_retry (env_with (\<lambda>url. ClientError)) initial_state
        [\<lparr>tag = ''img'', attrs = [(''src'', Str (S ''data:image/png;base64,AAAA''))]\<rparr>]
        (S ''http://example.com/banner/'') 3
      = (True, [\<lparr>tag = ''img'', attrs = [(''src'', Str (S ''data:image/png;base64,AAAA''))]\<rparr>],
         initial_state\<lparr>download_failures := 0\<rparr>)"
proof -
  have c: "count_downloadable_assets
     [\<lparr>tag = ''img'', attrs = [(''src'', Str (S ''data:image/png;base64,AAAA''))]\<rparr>] = 0"
    by code_simp
  have m: "(0::nat) < 3" by simp
  from c m no_references_complete_without_fetch [OF c m] show ?thesis by blast
qed

text \<open>
  The claim as stated fails in its second half: for the empty document, started from a
  fresh scraper, no manifest exists after the call; in particular no empty one.
\<close>

theorem empty_manifest_counterexample:
  "fst (download_assets_with_retry (env_with (\<lambda>url. ClientError)) initial_state []
      (S ''http://example.com/banner/'') 3)
   \<and> manifest (snd (snd (download_assets_with_retry (env_with (\<lambda>url. ClientError)) initial_state []
      (S ''http://example.com/banner/'') 3))) \<noteq> Some []"
  by code_simp

subsection \<open>The threshold of the parallel branch\<close>

text \<open>
  In parallel mode the document handed to \<open>_download_assets_with_retry\<close> is given back as
  it was: every rewriting is done on the tags of the round's own copy.
\<close>

lemma parallel_attempt_keeps_document:
  "parallel_downloads e \<Longrightarrow> fst (snd (attempt_once e s sp url)) = sp"
  by (simp add: attempt_once_def Let_def split: prod.splits sum.splits)

section \<open>Properties of a batch\<close>

subsection \<open>The collection has one entry for each key\<close>








subsection \<open>A cached URL is not requested\<close>



subsection \<open>The requests of the download phase\<close>








subsection \<open>What the collection records\<close>














abbreviation recorded_css :: "assets \<Rightarrow> pystr \<Rightarrow> pystr \<times> pystr \<Rightarrow> bool" where
  "recorded_css a k r \<equiv> (\<exists>info. (k, info) \<in> set a \<and> r \<in> set (css_refs info))"

lemma ensure_asset_keeps: "x \<in> set a \<Longrightarrow> x \<in> set (ensure_asset a k info)"
  by (simp add: ensure_asset_def)

lemma dict_modify_entry:
  "(k', v) \<in> set a \<Longrightarrow> (k', if k' = k then f v else v) \<in> set (dict_modify a k f)"
  by (force simp: dict_modify_def)




lemma dict_modify_recorded_css:
  assumes "recorded_css a k' r" and "\<And>v. set (css_refs v) \<subseteq> set (css_refs (f v))"
  shows "recorded_css (dict_modify a k f) k' r"
proof -
  from assms(1) obtain info where i: "(k', info) \<in> set a" "r \<in> set (css_refs info)" by blast
  from dict_modify_entry[OF i(1), of k f] i(2) assms(2) show ?thesis
    by (cases "k' = k") auto
qed










subsection \<open>References found in stylesheets\<close>

lemma collect_css_ref_keeps_css:
  "recorded_css a k r \<Longrightarrow> recorded_css (collect_css_ref lb css_url a g) k r"
  by (auto simp: collect_css_ref_def Let_def intro!: dict_modify_recorded_css ensure_asset_keeps)




text \<open>
  The stylesheet text kept in an entry: its references are recorded under their
  normalized URLs, resolved against the stylesheet's own URL.
\<close>

abbreviation css_complete :: "pylib \<Rightarrow> assets \<Rightarrow> bool" where
  "css_complete lb a \<equiv>
     (\<forall>k info body g. (k, info) \<in> set a \<and> css_content info = Some body \<and> g \<in> set (css_groups body)
        \<and> \<not> (startswith g (S ''data:'') \<or> startswith g (S ''#''))
        \<longrightarrow> recorded_css a (normalize_url lb g (Some k)) (k, g))"

lemma ensure_asset_content:
  "(k', v) \<in> set (ensure_asset a k info) \<Longrightarrow> css_content info = None
     \<Longrightarrow> css_content v = None \<or> (k', v) \<in> set a"
  by (auto simp: ensure_asset_def split: if_splits)

lemma dict_modify_content:
  assumes "(k', v') \<in> set (dict_modify a k f)" and "\<And>v. css_content (f v) = css_content v"
  shows "\<exists>v. (k', v) \<in> set a \<and> css_content v' = css_content v"
  using assms by (auto simp: dict_modify_def split: if_splits)


lemma collect_css_ref_content:
  "(k, v') \<in> set (collect_css_ref lb css_url a g)
     \<Longrightarrow> css_content v' = None \<or> (\<exists>v. (k, v) \<in> set a \<and> css_content v' = css_content v)"
proof (cases "startswith g (S ''data:'') \<or> startswith g (S ''#'')")
  case True
  assume "(k, v') \<in> set (collect_css_ref lb css_url a g)"
  with True show ?thesis by (auto simp: collect_css_ref_def)
next
  case False
  assume "(k, v') \<in> set (collect_css_ref lb css_url a g)"
  then obtain v where v: "(k, v) \<in> set (ensure_asset a (normalize_url lb g (Some css_url))
          \<lparr>atype = ''css_asset'', original_url = g, element_refs = [],
                    css_refs = [], css_content = None\<rparr>)" "css_content v' = css_content v"
    using False dict_modify_content[of k v' _ "normalize_url lb g (Some css_url)"
        "\<lambda>info. info\<lparr>css_refs := css_refs info @ [(css_url, g)]\<rparr>"]
    by (auto simp: collect_css_ref_def Let_def)
  from ensure_asset_content[OF v(1)] v(2) show ?thesis by auto
qed


lemma collect_css_ref_css_complete:
  assumes "css_complete lb' a"
  shows "css_complete lb' (collect_css_ref lb css_url a x)"
proof (intro allI impI, elim conjE)
  fix k info body g
  assume m: "(k, info) \<in> set (collect_css_ref lb css_url a x)"
    and c: "css_content info = Some body" and g: "g \<in> set (css_groups body)"
    and n: "\<not> (startswith g (S ''data:'') \<or> startswith g (S ''#''))"
  from collect_css_ref_content[OF m] c obtain v where "(k, v) \<in> set a" "css_content v = Some body"
    by auto
  with assms g n have "recorded_css a (normalize_url lb' g (Some k)) (k, g)" by blast
  then show "recorded_css (collect_css_ref lb css_url a x) (normalize_url lb' g (Some k)) (k, g)"
    by (rule collect_css_ref_keeps_css)
qed














subsection \<open>The requests of the collecting phase\<close>




subsection \<open>When the download phase sends exactly one request for each entry\<close>










section \<open>Rewriting in the parallel branch\<close>

subsection \<open>What the rewriting does to the element references\<close>

lemma map_of_dict_set: "map_of (dict_set d k v) k' = (if k' = k then Some v else map_of d k')"
  by (induction d) auto

lemma set_attr_length: "length (set_attr sp i attr v) = length sp"
  by (simp add: set_attr_def)

lemma set_attr_value:
  "i < length sp \<Longrightarrow>
     map_of (attrs (set_attr sp i attr v ! j)) b
       = (if j = i \<and> b = attr then Some (Str v) else map_of (attrs (sp ! j)) b)"
  by (cases "j = i") (simp_all add: set_attr_def map_of_dict_set)

lemma fold_set_attr:
  assumes "\<forall>r\<in>set refs. fst r < length sp"
  shows "length (fold (\<lambda>(i, attr, orig) sp'. set_attr sp' i attr lp) refs sp) = length sp
       \<and> map_of (attrs (fold (\<lambda>(i, attr, orig) sp'. set_attr sp' i attr lp) refs sp ! j)) b
           = (if \<exists>r\<in>set refs. fst r = j \<and> fst (snd r) = b then Some (Str lp)
              else map_of (attrs (sp ! j)) b)"
  using assms
proof (induction refs arbitrary: sp)
  case Nil
  then show ?case by simp
next
  case (Cons r refs)
  obtain i attr orig where r: "r = (i, attr, orig)" by (cases r)
  have i: "i < length sp" using Cons.prems r by simp
  have "\<forall>r\<in>set refs. fst r < length (set_attr sp i attr lp)"
    using Cons.prems by (simp add: set_attr_length)
  from Cons.IH[OF this] show ?case
    unfolding r by (auto simp: set_attr_length set_attr_value[OF i])
qed

lemma update_entry_soup:
  "fst (snd (update_entry e all_assets downloaded (rm, sp, s) x))
     = (case map_of downloaded (fst x) of
          None \<Rightarrow> sp
        | Some local_path \<Rightarrow>
            fold (\<lambda>(i, attr, orig) sp'. set_attr sp' i attr local_path) (element_refs (snd x)) sp)"
  by (simp add: update_entry_def Let_def split: option.splits)

lemma update_entry_soup_facts:
  assumes "\<forall>r\<in>set (element_refs (snd x)). fst r < length (fst (snd acc))"
  shows "length (fst (snd (update_entry e all_assets downloaded acc x))) = length (fst (snd acc))
       \<and> map_of (attrs (fst (snd (update_entry e all_assets downloaded acc x)) ! j)) b
           = (case map_of downloaded (fst x) of
                None \<Rightarrow> map_of (attrs (fst (snd acc) ! j)) b
              | Some local_path \<Rightarrow>
                  if \<exists>r\<in>set (element_refs (snd x)). fst r = j \<and> fst (snd r) = b
                  then Some (Str local_path) else map_of (attrs (fst (snd acc) ! j)) b)"
proof -
  obtain rm sp s where acc: "acc = (rm, sp, s)" by (cases acc)
  show ?thesis
    unfolding acc update_entry_soup using assms fold_set_attr[of "element_refs (snd x)" sp _ j b]
    by (auto simp: acc split: option.splits)
qed

lemma update_fold_length:
  assumes "\<forall>x\<in>set es. \<forall>r\<in>set (element_refs (snd x)). fst r < length (fst (snd acc))"
  shows "length (fst (snd (fold (\<lambda>entry acc. update_entry e all_assets downloaded acc entry) es acc)))
           = length (fst (snd acc))"
  using assms
proof (induction es arbitrary: acc)
  case Nil
  then show ?case by simp
next
  case (Cons x es)
  have l: "length (fst (snd (update_entry e all_assets downloaded acc x))) = length (fst (snd acc))"
    using update_entry_soup_facts[of x acc] Cons.prems by simp
  from Cons.IH[of "update_entry e all_assets downloaded acc x"] Cons.prems l
  show ?case by simp
qed






end
